theory Spec2Isabelle
  imports Main "HOL-Library.Multiset"
begin

text \<open>
  The server is an Express application in front of two libraries: a resolver
  (\<open>ytdl-core\<close>: \<open>validateURL\<close>, \<open>getInfo\<close>) and a search client (\<open>yt-search\<close>). Its
  own logic is the function \<open>formatVideoData\<close> and the branching of the request
  handlers. The model follows the server of version 2.0.0 (\<open>src/unnamed/part_000\<close>);
  the earlier snapshot \<open>src/index.js\<close> has a section of its own.
\<close>

section \<open>JavaScript primitives used by the server\<close>

text \<open>
  A string is a \<^typ>\<open>string\<close>, read as the list of its code units, each below 256.
  A property that may be missing or \<open>undefined\<close> is an \<open>option\<close>.

  A JavaScript number is an IEEE double. The numbers that occur here come from
  \<open>parseInt\<close> and from subtracting two of its results, so they are \<open>NaN\<close>, an
  infinity, or a double whose value is an integer: \<open>Num i\<close> stands for the double of
  value \<open>i\<close> (\<open>-0\<close> and \<open>+0\<close> are both \<open>Num 0\<close>; they print and compare alike).
\<close>

datatype jsnum = NaN | Num int | PosInfinity | NegInfinity

text \<open>
  An integer becomes a number by rounding to the nearest double, a tie going to the
  even significand. \<open>bitLength n\<close> is the number of binary digits of \<open>n\<close>; a double
  keeps the 53 leading ones, so for \<open>n\<close> of \<open>53 + e\<close> digits the last \<open>e\<close> are rounded
  away. A magnitude that rounds to \<open>2^1024\<close> or more is beyond the largest double and
  becomes an infinity.
\<close>

fun bitLength :: "nat \<Rightarrow> nat" where
  "bitLength n = (if n = 0 then 0 else Suc (bitLength (n div 2)))"

declare bitLength.simps [simp del]

definition roundNat :: "nat \<Rightarrow> nat" where
  "roundNat n =
     (if n < 2 ^ 53 then n
      else
        (let e = bitLength n - 53;
             q = n div 2 ^ e;
             r = n mod 2 ^ e;
             half = 2 ^ (e - 1)
         in if half < r \<or> (r = half \<and> odd q) then (q + 1) * 2 ^ e else q * 2 ^ e))"

definition toDouble :: "int \<Rightarrow> jsnum" where
  "toDouble i =
     (let m = roundNat (nat \<bar>i\<bar>)
      in if 2 ^ 1024 \<le> m then (if i < 0 then NegInfinity else PosInfinity)
         else Num (if i < 0 then - int m else int m))"

text \<open>
  \<open>a - b\<close> on numbers: the exact difference, rounded. \<open>NaN\<close> is absorbing, and the
  difference of two equal infinities is \<open>NaN\<close>.
\<close>

fun jsnum_sub :: "jsnum \<Rightarrow> jsnum \<Rightarrow> jsnum" where
  "jsnum_sub (Num a) (Num b) = toDouble (a - b)"
| "jsnum_sub NaN _ = NaN"
| "jsnum_sub _ NaN = NaN"
| "jsnum_sub PosInfinity PosInfinity = NaN"
| "jsnum_sub NegInfinity NegInfinity = NaN"
| "jsnum_sub PosInfinity _ = PosInfinity"
| "jsnum_sub NegInfinity _ = NegInfinity"
| "jsnum_sub (Num a) PosInfinity = NegInfinity"
| "jsnum_sub (Num a) NegInfinity = PosInfinity"

text \<open>Truthiness of an optional string: \<open>undefined\<close> and \<open>''''\<close> are falsy.\<close>

fun truthy :: "string option \<Rightarrow> bool" where
  "truthy None = False"
| "truthy (Some s) = (s \<noteq> [])"

text \<open>\<open>s.includes(sub)\<close>: \<open>sub\<close> occurs in \<open>s\<close> as a contiguous substring.\<close>

fun str_includes :: "string \<Rightarrow> string \<Rightarrow> bool" where
  "str_includes [] sub = (sub = [])"
| "str_includes (c # cs) sub = (take (length sub) (c # cs) = sub \<or> str_includes cs sub)"

text \<open>\<open>x?.includes(sub)\<close> used as a condition: \<open>undefined\<close> is falsy.\<close>

fun opt_includes :: "string option \<Rightarrow> string \<Rightarrow> bool" where
  "opt_includes None sub = False"
| "opt_includes (Some s) sub = str_includes s sub"

definition isDigit :: "char \<Rightarrow> bool" where
  "isDigit c = (c \<in> set ''0123456789'')"

definition isHexDigit :: "char \<Rightarrow> bool" where
  "isHexDigit c = (c \<in> set ''0123456789abcdefABCDEF'')"

text \<open>
  The white space that \<open>parseInt\<close> and \<open>trim\<close> strip: of the code units below 256
  these are tab, line feed, vertical tab, form feed, carriage return, space and the
  no-break space U+00A0.
\<close>

definition isSpace :: "char \<Rightarrow> bool" where
  "isSpace c =
     (c \<in> set [CHR 0x09, CHR 0x0A, CHR 0x0B, CHR 0x0C, CHR 0x0D, CHR 0x20, CHR 0xA0])"

definition digitVal :: "char \<Rightarrow> nat" where
  "digitVal c =
     (let n = (of_char c :: nat)
      in if 48 \<le> n \<and> n \<le> 57 then n - 48
         else if 97 \<le> n \<and> n \<le> 102 then n - 87
         else n - 55)"

definition digitsValue :: "nat \<Rightarrow> string \<Rightarrow> nat" where
  "digitsValue radix ds = foldl (\<lambda>n c. n * radix + digitVal c) 0 ds"

text \<open>
  \<open>parseInt(s)\<close> with no radix argument: leading white space is skipped, one sign is
  read, a \<open>0x\<close>/\<open>0X\<close> prefix selects radix 16, and the longest prefix of digits of the
  radix is read as an integer, which becomes the nearest double (as Node's engine
  computes it); with no digit the result is \<open>NaN\<close>.
\<close>

definition parseInt :: "string \<Rightarrow> jsnum" where
  "parseInt s =
     (let s1 = dropWhile isSpace s;
          neg = (case s1 of c # _ \<Rightarrow> c = CHR ''-'' | [] \<Rightarrow> False);
          s2 = (case s1 of c # r \<Rightarrow> if c = CHR ''-'' \<or> c = CHR ''+'' then r else s1 | [] \<Rightarrow> s1);
          hex = (case s2 of a # b # _ \<Rightarrow> a = CHR ''0'' \<and> (b = CHR ''x'' \<or> b = CHR ''X'') | _ \<Rightarrow> False);
          s3 = (if hex then drop 2 s2 else s2);
          ds = (if hex then takeWhile isHexDigit s3 else takeWhile isDigit s3)
      in if ds = [] then NaN
         else toDouble ((if neg then - 1 else 1) * int (digitsValue (if hex then 16 else 10) ds)))"

text \<open>
  \<open>quality.match(/(\d+)p/)\<close>. The regular expression is not anchored: the engine tries
  every start position from the left. At one position \<open>\d+\<close> is greedy and takes the
  whole run of digits; the match succeeds when the next character is \<open>p\<close> (backing off
  to a shorter run cannot succeed, the character after it being a digit).
  \<open>matchAt\<close> is the attempt at the head of the string and returns capture group 1;
  \<open>matchDigitsP\<close> is the scan over the start positions.
\<close>

definition matchAt :: "string \<Rightarrow> string option" where
  "matchAt s =
     (let ds = takeWhile isDigit s
      in if ds \<noteq> [] \<and> (case dropWhile isDigit s of c # _ \<Rightarrow> c = CHR ''p'' | [] \<Rightarrow> False)
         then Some ds else None)"

fun matchDigitsP :: "string \<Rightarrow> string option" where
  "matchDigitsP [] = None"
| "matchDigitsP (c # cs) =
     (case matchAt (c # cs) of Some ds \<Rightarrow> Some ds | None \<Rightarrow> matchDigitsP cs)"

text \<open>
  \<^verbatim>\<open>const getQualityNum = (quality) => {
    const match = quality.match(/(\d+)p/);
    return match ? parseInt(match[1]) : 0; };\<close>
\<close>

definition getQualityNum :: "string \<Rightarrow> jsnum" where
  "getQualityNum quality =
     (case matchDigitsP quality of Some m \<Rightarrow> parseInt m | None \<Rightarrow> Num 0)"


text \<open>
  \<open>Array.prototype.sort(compareFn)\<close>. ECMAScript fixes the result, not the algorithm:
  the sort is stable, an element \<open>x\<close> stays in front of \<open>y\<close> unless the comparator
  orders \<open>y\<close> first, and a comparator result \<open>NaN\<close> counts as \<open>+0\<close>. A stable insertion
  sort represents it: \<open>notAfter v\<close> reads a comparator result \<open>v = compareFn(x, y)\<close> as
  "\<open>x\<close> is not to be moved behind \<open>y\<close>".
\<close>

fun notAfter :: "jsnum \<Rightarrow> bool" where
  "notAfter NaN = True"
| "notAfter (Num v) = (v \<le> 0)"
| "notAfter PosInfinity = False"
| "notAfter NegInfinity = True"

fun insertSorted :: "('a \<Rightarrow> 'a \<Rightarrow> jsnum) \<Rightarrow> 'a \<Rightarrow> 'a list \<Rightarrow> 'a list" where
  "insertSorted cmp x [] = [x]"
| "insertSorted cmp x (y # ys) =
     (if notAfter (cmp x y) then x # y # ys else y # insertSorted cmp x ys)"

definition js_sort :: "('a \<Rightarrow> 'a \<Rightarrow> jsnum) \<Rightarrow> 'a list \<Rightarrow> 'a list" where
  "js_sort cmp xs = foldr (insertSorted cmp) xs []"

text \<open>
  An array is a list of fewer than \<open>2^32\<close> elements; \<open>elements\<close> is the list of an
  array.
\<close>

typedef 'a js_array = "{xs :: 'a list. length xs < 2 ^ 32}"
  morphisms elements Array_of
  by (rule exI [of _ "[]"]) simp

text \<open>
  \<open>xs.slice(0, end)\<close>: a \<open>NaN\<close> end is 0, a negative end counts from the back of the
  array, and the end is clamped to the length (so \<open>Infinity\<close> is the length and
  \<open>-Infinity\<close> is 0).
\<close>

definition slice0 :: "'a list \<Rightarrow> jsnum \<Rightarrow> 'a list" where
  "slice0 xs end_arg =
     (let len = int (length xs);
          final = (case end_arg of
                     NaN \<Rightarrow> 0
                   | Num relEnd \<Rightarrow> if relEnd < 0 then max (len + relEnd) 0 else min relEnd len
                   | PosInfinity \<Rightarrow> len
                   | NegInfinity \<Rightarrow> 0)
      in take (nat final) xs)"

text \<open>\<open>s.split(',')\<close> and \<open>s.trim()\<close>.\<close>

fun splitAcc :: "string \<Rightarrow> string \<Rightarrow> string list" where
  "splitAcc cur [] = [cur]"
| "splitAcc cur (c # cs) =
     (if c = CHR '','' then cur # splitAcc [] cs else splitAcc (cur @ [c]) cs)"

definition split_comma :: "string \<Rightarrow> string list" where
  "split_comma s = splitAcc [] s"

definition trim :: "string \<Rightarrow> string" where
  "trim s = rev (dropWhile isSpace (rev (dropWhile isSpace s)))"

text \<open>A thrown error; \<open>message\<close> is its \<open>.message\<close>.\<close>

datatype js_error = TypeError string | Error string

fun message :: "js_error \<Rightarrow> string" where
  "message (TypeError m) = m"
| "message (Error m) = m"

text \<open>
  The message of the \<open>TypeError\<close> that Node's engine throws when the property \<open>p\<close>
  of \<open>undefined\<close> is read (\<open>CHR 0x27\<close> is the single quotation mark).
\<close>

definition cannotRead :: "string \<Rightarrow> string" where
  "cannotRead p =
     ''Cannot read properties of undefined (reading '' @ [CHR 0x27] @ p @ [CHR 0x27] @ '')''"


section \<open>Data model\<close>

text \<open>
  A stream format as the resolver (\<open>ytdl-core\<close>) delivers it, with the properties that
  \<open>formatVideoData\<close> reads. The properties that the code guards with \<open>||\<close>, \<open>?.\<close> or
  \<open>? :\<close> are optional.
\<close>

record format =
  qualityLabel :: "string option"
  quality :: "string option"
  audioQuality :: "string option"
  url :: string
  mimeType :: "string option"
  hasVideo :: bool
  hasAudio :: bool
  contentLength :: "string option"
  container :: string
  codecs :: "string option"

text \<open>
  The object literals that \<open>formatVideoData\<close> builds for a video format and for an audio
  format. Their keys are the source's keys with a prefix (\<open>v_\<close>, \<open>a_\<close>), record fields
  being global names. \<open>fileSize\<close> is \<open>null\<close> (\<open>None\<close>) or a number.
\<close>

record videoEntry =
  v_quality :: string
  v_url :: string
  v_mimeType :: "string option"
  v_hasAudio :: bool
  v_fileSize :: "jsnum option"
  v_container :: string
  v_codecs :: "string option"

record audioEntry =
  a_quality :: string
  a_url :: string
  a_mimeType :: "string option"
  a_hasAudio :: bool
  a_fileSize :: "jsnum option"
  a_container :: string

record thumbnail =
  t_url :: "string option"

record author =
  name :: "string option"

record videoDetails =
  title :: string
  thumbnails :: "thumbnail list option"
  description :: "string option"
  lengthSeconds :: string
  author :: "author option"
  viewCount :: string

record videoInfo =
  videoDetails :: videoDetails
  formats :: "format list option"

text \<open>The response object of \<open>formatVideoData\<close>; \<open>format_options\<close> is flattened.\<close>

record format_options =
  video_mp4 :: "videoEntry list"
  video_webm :: "videoEntry list"
  audio_mp3 :: "audioEntry list"
  audio_webm :: "audioEntry list"

record classified =
  r_title :: string
  r_image :: "string option"
  r_description :: "string option"
  r_lengthSeconds :: string
  r_author :: string
  r_viewCount :: string
  expiresInSeconds :: string
  format_options :: format_options


section \<open>The format classifier \<open>formatVideoData\<close>\<close>

text \<open>\<open>format.contentLength ? parseInt(format.contentLength) : null\<close>\<close>

definition fileSizeOf :: "string option \<Rightarrow> jsnum option" where
  "fileSizeOf cl = (case cl of None \<Rightarrow> None | Some s \<Rightarrow> if s = [] then None else Some (parseInt s))"

text \<open>The \<open>.map\<close> callback of the video formats.\<close>

definition videoEntryOf :: "format \<Rightarrow> videoEntry" where
  "videoEntryOf format =
     \<lparr> v_quality =
         (if truthy (qualityLabel format) then the (qualityLabel format)
          else if truthy (quality format) then the (quality format)
          else ''unknown''),
       v_url = url format,
       v_mimeType = mimeType format,
       v_hasAudio = hasAudio format,
       v_fileSize = fileSizeOf (contentLength format),
       v_container = container format,
       v_codecs = codecs format \<rparr>"

text \<open>The \<open>.map\<close> callback of the audio formats.\<close>

definition audioEntryOf :: "format \<Rightarrow> audioEntry" where
  "audioEntryOf format =
     \<lparr> a_quality = (if truthy (audioQuality format) then the (audioQuality format) else ''audio''),
       a_url = url format,
       a_mimeType = mimeType format,
       a_hasAudio = True,
       a_fileSize = fileSizeOf (contentLength format),
       a_container = container format \<rparr>"

text \<open>The comparator of the sort: \<open>getQualityNum(b.quality) - getQualityNum(a.quality)\<close>.\<close>

definition compareFn :: "videoEntry \<Rightarrow> videoEntry \<Rightarrow> jsnum" where
  "compareFn a b = jsnum_sub (getQualityNum (v_quality b)) (getQualityNum (v_quality a))"

text \<open>The two local lists of \<open>formatVideoData\<close>: filter, map and (video only) sort.\<close>

definition videoFormats :: "format list \<Rightarrow> videoEntry list" where
  "videoFormats fs = js_sort compareFn (map videoEntryOf (filter (\<lambda>format. hasVideo format) fs))"

definition audioFormats :: "format list \<Rightarrow> audioEntry list" where
  "audioFormats fs = map audioEntryOf (filter (\<lambda>format. hasAudio format \<and> \<not> hasVideo format) fs)"

text \<open>
  \<open>formatVideoData(videoInfo, formats)\<close>. Two property reads can throw a \<open>TypeError\<close>:
  \<open>formats.filter\<close> when \<open>formats\<close> is \<open>undefined\<close>, and \<open>thumbnails.length\<close> when the
  thumbnail list is \<open>undefined\<close> (the \<open>?.\<close> of the source guards the last element, not
  the list).
\<close>

definition formatVideoData :: "videoInfo \<Rightarrow> format list option \<Rightarrow> js_error + classified" where
  "formatVideoData videoInfo formats_arg =
     (case formats_arg of
        None \<Rightarrow> Inl (TypeError (cannotRead ''filter''))
      | Some fs \<Rightarrow>
          (case thumbnails (videoDetails videoInfo) of
             None \<Rightarrow> Inl (TypeError (cannotRead ''length''))
           | Some ths \<Rightarrow>
               Inr \<lparr> r_title = title (videoDetails videoInfo),
                     r_image = (if ths = [] then None else t_url (last ths)),
                     r_description = description (videoDetails videoInfo),
                     r_lengthSeconds = lengthSeconds (videoDetails videoInfo),
                     r_author =
                       (case author (videoDetails videoInfo) of
                          None \<Rightarrow> ''Unknown''
                        | Some a \<Rightarrow> if truthy (name a) then the (name a) else ''Unknown''),
                     r_viewCount = viewCount (videoDetails videoInfo),
                     expiresInSeconds = ''21540'',
                     format_options =
                       \<lparr> video_mp4 = filter (\<lambda>f. v_container f = ''mp4'' \<or> opt_includes (v_mimeType f) ''mp4'')
                                      (videoFormats fs),
                         video_webm = filter (\<lambda>f. v_container f = ''webm'' \<or> opt_includes (v_mimeType f) ''webm'')
                                      (videoFormats fs),
                         audio_mp3 = filter (\<lambda>f. a_container f = ''mp4'' \<or> opt_includes (a_mimeType f) ''mp4'')
                                      (audioFormats fs),
                         audio_webm = filter (\<lambda>f. a_container f = ''webm'' \<or> opt_includes (a_mimeType f) ''webm'')
                                      (audioFormats fs) \<rparr> \<rparr>))"


section \<open>The request handlers\<close>

text \<open>
  A handler's answer: the HTTP status (200 when the source calls \<open>res.json\<close> alone) and
  the JSON body. An error body is the object literal of the source as its list of keys
  and values. The two collaborators are parameters: \<open>validateURL\<close> of the resolver, and
  \<open>getInfo\<close>, whose rejected promise is the \<open>Inl\<close> of the result (an \<open>await\<close> of it
  throws inside the enclosing \<open>try\<close>). A query parameter is an optional string.
\<close>

datatype jval = JStr string | JList "string list"

record video =
  videoId :: string
  video_title :: string
  video_description :: string
  duration_timestamp :: string
  views :: string
  uploaded :: string
  video_thumbnail :: string
  author_name :: string
  video_url :: string

record searchResults =
  videos :: "video js_array"

record searchEntry =
  s_videoId :: string
  s_title :: string
  s_description :: string
  s_duration :: string
  s_views :: string
  s_uploaded :: string
  s_thumbnail :: string
  s_author :: string
  s_url :: string

record bulkItem =
  b_url :: string
  b_status :: string
  b_data :: "classified option"
  b_error :: "string option"

datatype body =
    ErrorBody "(string \<times> jval) list"
  | Extracted classified
  | SearchBody string "searchEntry list" nat
  | BulkBody nat nat nat "bulkItem list"

record response =
  status :: nat
  body :: body

text \<open>\<open>GET /extract\<close>\<close>

definition extractHandler ::
  "(string \<Rightarrow> bool) \<Rightarrow> (string \<Rightarrow> js_error + videoInfo) \<Rightarrow> string option \<Rightarrow> response" where
  "extractHandler validateURL getInfo url_param =
     (if \<not> truthy url_param then
        \<lparr> status = 400,
          body = ErrorBody [(''error'', JStr ''URL parameter is required''),
                            (''example'', JStr ''/extract?url=https://www.youtube.com/watch?v=VIDEO_ID'')] \<rparr>
      else if \<not> validateURL (the url_param) then
        \<lparr> status = 400,
          body = ErrorBody [(''error'', JStr ''Invalid YouTube URL''),
                            (''supported_formats'',
                             JList [''https://www.youtube.com/watch?v=VIDEO_ID'',
                                    ''https://youtu.be/VIDEO_ID'',
                                    ''https://www.youtube.com/embed/VIDEO_ID''])] \<rparr>
      else
        (case getInfo (the url_param) of
           Inl ytdlError \<Rightarrow>
             (if str_includes (message ytdlError) ''Video unavailable'' then
                \<lparr> status = 404,
                  body = ErrorBody [(''error'', JStr ''Video not found or unavailable''),
                                    (''details'', JStr ''The video may have been removed or made private'')] \<rparr>
              else if str_includes (message ytdlError) ''Sign in to confirm'' then
                \<lparr> status = 403,
                  body = ErrorBody [(''error'', JStr ''Age-restricted content''),
                                    (''details'', JStr ''This video is age-restricted and cannot be downloaded'')] \<rparr>
              else
                \<lparr> status = 500,
                  body = ErrorBody [(''error'', JStr ''Failed to fetch video information from YouTube''),
                                    (''details'', JStr ''YouTube may have changed their API. Please try again later.''),
                                    (''technical'', JStr (message ytdlError))] \<rparr>)
         | Inr videoInfo \<Rightarrow>
             (if (case formats videoInfo of None \<Rightarrow> True | Some fs \<Rightarrow> length fs = 0) then
                \<lparr> status = 500,
                  body = ErrorBody [(''error'', JStr ''No downloadable formats available''),
                                    (''details'', JStr ''The video might be live streaming or protected'')] \<rparr>
              else
                (case formatVideoData videoInfo (formats videoInfo) of
                   Inl error \<Rightarrow>
                     \<lparr> status = 500,
                       body = ErrorBody [(''error'', JStr ''Internal server error''),
                                         (''details'', JStr ''An unexpected error occurred''),
                                         (''message'', JStr (message error))] \<rparr>
                 | Inr formattedData \<Rightarrow> \<lparr> status = 200, body = Extracted formattedData \<rparr>))))"

text \<open>\<open>GET /search\<close>; \<open>limit = 10\<close> is the default of the destructuring.\<close>

definition searchEntryOf :: "video \<Rightarrow> searchEntry" where
  "searchEntryOf video =
     \<lparr> s_videoId = videoId video,
       s_title = video_title video,
       s_description = video_description video,
       s_duration = duration_timestamp video,
       s_views = views video,
       s_uploaded = uploaded video,
       s_thumbnail = video_thumbnail video,
       s_author = author_name video,
       s_url = video_url video \<rparr>"

definition searchHandler ::
  "(string \<Rightarrow> js_error + searchResults) \<Rightarrow> string option \<Rightarrow> string option \<Rightarrow> response" where
  "searchHandler ytSearch q_param limit_param =
     (if \<not> truthy q_param then
        \<lparr> status = 400,
          body = ErrorBody [(''error'', JStr (''Query parameter '' @ [CHR 0x22] @ ''q'' @ [CHR 0x22] @ '' is required'')),
                            (''example'', JStr ''/search?q=javascript+tutorial&limit=10'')] \<rparr>
      else
        (case ytSearch (the q_param) of
           Inl error \<Rightarrow>
             \<lparr> status = 500,
               body = ErrorBody [(''error'', JStr ''Search failed''),
                                 (''details'', JStr (message error))] \<rparr>
         | Inr searchResults \<Rightarrow>
             (let limit = (case limit_param of None \<Rightarrow> Num 10 | Some l \<Rightarrow> parseInt l);
                  videos = map searchEntryOf (slice0 (elements (videos searchResults)) limit)
              in \<lparr> status = 200, body = SearchBody (the q_param) videos (length videos) \<rparr>)))"

text \<open>
  \<open>GET /bulk-extract\<close>. \<open>bulkStep\<close> is the body of the \<open>for\<close> loop with its own
  \<open>try\<close>/\<open>catch\<close>, \<open>bulkLoop\<close> the loop pushing onto \<open>results\<close>.
\<close>

definition bulkStep ::
  "(string \<Rightarrow> bool) \<Rightarrow> (string \<Rightarrow> js_error + videoInfo) \<Rightarrow> string \<Rightarrow> bulkItem" where
  "bulkStep validateURL getInfo u =
     (if validateURL u then
        (case getInfo u of
           Inl error \<Rightarrow> \<lparr> b_url = u, b_status = ''error'', b_data = None, b_error = Some (message error) \<rparr>
         | Inr videoInfo \<Rightarrow>
             (case formatVideoData videoInfo (formats videoInfo) of
                Inl error \<Rightarrow> \<lparr> b_url = u, b_status = ''error'', b_data = None, b_error = Some (message error) \<rparr>
              | Inr formattedData \<Rightarrow>
                  \<lparr> b_url = u, b_status = ''success'', b_data = Some formattedData, b_error = None \<rparr>))
      else \<lparr> b_url = u, b_status = ''error'', b_data = None, b_error = Some ''Invalid YouTube URL'' \<rparr>)"

fun bulkLoop ::
  "(string \<Rightarrow> bool) \<Rightarrow> (string \<Rightarrow> js_error + videoInfo) \<Rightarrow> string list \<Rightarrow> bulkItem list \<Rightarrow> bulkItem list" where
  "bulkLoop validateURL getInfo [] results = results"
| "bulkLoop validateURL getInfo (u # rest) results =
     bulkLoop validateURL getInfo rest (results @ [bulkStep validateURL getInfo u])"

definition bulkExtractHandler ::
  "(string \<Rightarrow> bool) \<Rightarrow> (string \<Rightarrow> js_error + videoInfo) \<Rightarrow> string option \<Rightarrow> response" where
  "bulkExtractHandler validateURL getInfo urls_param =
     (if \<not> truthy urls_param then
        \<lparr> status = 400,
          body = ErrorBody [(''error'', JStr ''URLs parameter is required''),
                            (''example'', JStr ''/bulk-extract?urls=URL1,URL2,URL3'')] \<rparr>
      else
        (let urlArray = map trim (split_comma (the urls_param));
             results = bulkLoop validateURL getInfo urlArray []
         in \<lparr> status = 200,
              body = BulkBody (length urlArray)
                       (length (filter (\<lambda>r. b_status r = ''success'') results))
                       (length (filter (\<lambda>r. b_status r = ''error'') results))
                       results \<rparr>))"


section \<open>The earlier snapshot \<open>index.js\<close>\<close>

text \<open>
  The definitions above are the server of version 2.0.0. The repository also holds an
  earlier snapshot of the same server, \<open>index.js\<close>, whose \<open>formatVideoData\<close> and
  \<open>/extract\<close> handler differ; they are modelled here under their names with the suffix
  \<open>_index\<close>. Its entries have no \<open>codecs\<close> key, and their quality is
  \<open>format.qualityLabel || format.quality\<close>, which may be \<open>undefined\<close>.
\<close>

record entry_index =
  i_quality :: "string option"
  i_url :: string
  i_mimeType :: "string option"
  i_hasAudio :: bool
  i_fileSize :: "jsnum option"
  i_container :: string

record format_options_index =
  i_video_mp4 :: "entry_index list"
  i_video_webm :: "entry_index list"
  i_audio_mp3 :: "entry_index list"
  i_audio_webm :: "entry_index list"

record classified_index =
  i_title :: string
  i_image :: "string option"
  i_description :: "string option"
  i_lengthSeconds :: string
  i_author :: "string option"
  i_format_options :: format_options_index

text \<open>The \<open>.map\<close> callback of the video-only and of the combined formats.\<close>

definition videoEntryOf_index :: "format \<Rightarrow> entry_index" where
  "videoEntryOf_index format =
     \<lparr> i_quality = (if truthy (qualityLabel format) then qualityLabel format else quality format),
       i_url = url format,
       i_mimeType = mimeType format,
       i_hasAudio = hasAudio format,
       i_fileSize = fileSizeOf (contentLength format),
       i_container = container format \<rparr>"

definition audioEntryOf_index :: "format \<Rightarrow> entry_index" where
  "audioEntryOf_index format =
     \<lparr> i_quality = (if truthy (audioQuality format) then audioQuality format else Some ''audio''),
       i_url = url format,
       i_mimeType = mimeType format,
       i_hasAudio = True,
       i_fileSize = fileSizeOf (contentLength format),
       i_container = container format \<rparr>"

definition videoFormats_index :: "format list \<Rightarrow> entry_index list" where
  "videoFormats_index fs =
     map videoEntryOf_index (filter (\<lambda>format. hasVideo format \<and> \<not> hasAudio format) fs)"

definition audioFormats_index :: "format list \<Rightarrow> entry_index list" where
  "audioFormats_index fs =
     map audioEntryOf_index (filter (\<lambda>format. \<not> hasVideo format \<and> hasAudio format) fs)"

definition combinedFormats_index :: "format list \<Rightarrow> entry_index list" where
  "combinedFormats_index fs =
     map videoEntryOf_index (filter (\<lambda>format. hasVideo format \<and> hasAudio format) fs)"

text \<open>
  \<open>audioFormats.filter(f => f.container === 'mp4' || f.mimeType.includes('audio/mp4'))\<close>:
  the callback throws at the first entry that is not in an mp4 container and has no
  mime type.
\<close>

fun mp3Filter_index :: "entry_index list \<Rightarrow> js_error + entry_index list" where
  "mp3Filter_index [] = Inr []"
| "mp3Filter_index (f # fs) =
     (if i_container f = ''mp4'' then map_sum id (Cons f) (mp3Filter_index fs)
      else (case i_mimeType f of
              None \<Rightarrow> Inl (TypeError (cannotRead ''includes''))
            | Some m \<Rightarrow>
                if str_includes m ''audio/mp4'' then map_sum id (Cons f) (mp3Filter_index fs)
                else mp3Filter_index fs))"

text \<open>
  \<open>formatVideoData\<close> of \<open>index.js\<close>. The properties of the returned object are
  evaluated in the order written, so the first of the possible \<open>TypeError\<close>s is the
  one thrown: the last thumbnail of an empty list has no \<open>url\<close> to read, a missing
  author no \<open>name\<close>.
\<close>

definition formatVideoData_index :: "videoInfo \<Rightarrow> format list option \<Rightarrow> js_error + classified_index" where
  "formatVideoData_index videoInfo formats_arg =
     (case formats_arg of
        None \<Rightarrow> Inl (TypeError (cannotRead ''filter''))
      | Some fs \<Rightarrow>
          (case thumbnails (videoDetails videoInfo) of
             None \<Rightarrow> Inl (TypeError (cannotRead ''length''))
           | Some ths \<Rightarrow>
               if ths = [] then Inl (TypeError (cannotRead ''url''))
               else
                 (case author (videoDetails videoInfo) of
                    None \<Rightarrow> Inl (TypeError (cannotRead ''name''))
                  | Some a \<Rightarrow>
                      (case mp3Filter_index (audioFormats_index fs) of
                         Inl error \<Rightarrow> Inl error
                       | Inr mp3 \<Rightarrow>
                           Inr \<lparr> i_title = title (videoDetails videoInfo),
                                 i_image = t_url (last ths),
                                 i_description = description (videoDetails videoInfo),
                                 i_lengthSeconds = lengthSeconds (videoDetails videoInfo),
                                 i_author = name a,
                                 i_format_options =
                                   \<lparr> i_video_mp4 = filter (\<lambda>f. i_container f = ''mp4'')
                                                     (videoFormats_index fs @ combinedFormats_index fs),
                                     i_video_webm = filter (\<lambda>f. i_container f = ''webm'')
                                                     (videoFormats_index fs @ combinedFormats_index fs),
                                     i_audio_mp3 = mp3,
                                     i_audio_webm = filter (\<lambda>f. i_container f = ''webm'')
                                                     (audioFormats_index fs) \<rparr> \<rparr>))))"

text \<open>
  \<open>GET /extract\<close> of \<open>index.js\<close>: one \<open>try\<close> around the whole handler, whose \<open>catch\<close>
  tests the message for \<open>Video unavailable\<close> only. \<open>IndexData\<close> is the body of its
  answer 200.
\<close>

datatype body_index = IndexError "(string \<times> jval) list" | IndexData classified_index

record response_index =
  i_status :: nat
  i_body :: body_index

definition catch_index :: "js_error \<Rightarrow> response_index" where
  "catch_index error =
     (if str_includes (message error) ''Video unavailable'' then
        \<lparr> i_status = 404, i_body = IndexError [(''error'', JStr ''Video not found or unavailable'')] \<rparr>
      else
        \<lparr> i_status = 500,
          i_body = IndexError [(''error'', JStr ''Failed to extract video information''),
                               (''details'', JStr (message error))] \<rparr>)"

definition extractHandler_index ::
  "(string \<Rightarrow> bool) \<Rightarrow> (string \<Rightarrow> js_error + videoInfo) \<Rightarrow> string option \<Rightarrow> response_index" where
  "extractHandler_index validateURL getInfo url_param =
     (if \<not> truthy url_param then
        \<lparr> i_status = 400,
          i_body = IndexError [(''error'', JStr ''URL parameter is required''),
                               (''example'', JStr ''/extract?url=https://www.youtube.com/watch?v=VIDEO_ID'')] \<rparr>
      else if \<not> validateURL (the url_param) then
        \<lparr> i_status = 400, i_body = IndexError [(''error'', JStr ''Invalid YouTube URL'')] \<rparr>
      else
        (case getInfo (the url_param) of
           Inl error \<Rightarrow> catch_index error
         | Inr videoInfo \<Rightarrow>
             (case formatVideoData_index videoInfo (formats videoInfo) of
                Inl error \<Rightarrow> catch_index error
              | Inr formattedData \<Rightarrow> \<lparr> i_status = 200, i_body = IndexData formattedData \<rparr>)))"


section \<open>Rounding to a double\<close>

lemma bitLength_bounds: "0 < n \<Longrightarrow> 2 ^ (bitLength n - 1) \<le> n \<and> n < 2 ^ bitLength n"
proof (induction n rule: bitLength.induct)
  case (1 n)
  show ?case
  proof (cases "n div 2 = 0")
    case True
    with "1.prems" have n: "n = 1" by (simp add: div_eq_0_iff)
    have "bitLength (Suc 0) = Suc 0" by (simp add: bitLength.simps [of "Suc 0"] bitLength.simps [of 0])
    with n show ?thesis by simp
  next
    case False
    with "1.IH" "1.prems" have ih: "2 ^ (bitLength (n div 2) - 1) \<le> n div 2" "n div 2 < 2 ^ bitLength (n div 2)"
      by auto
    have bl: "bitLength n = Suc (bitLength (n div 2))" using "1.prems" by (simp add: bitLength.simps [of n])
    have pos: "0 < bitLength (n div 2)" using False by (simp add: bitLength.simps [of "n div 2"])
    then obtain k where k: "bitLength (n div 2) = Suc k" by (cases "bitLength (n div 2)") auto
    from ih k have "2 ^ k \<le> n div 2" "n div 2 < 2 ^ Suc k" by auto
    then have "2 ^ Suc k \<le> n" "n < 2 ^ Suc (Suc k)" by auto
    with bl k show ?thesis by simp
  qed
qed

lemma bitLength_eq: "2 ^ k \<le> n \<Longrightarrow> n < 2 ^ Suc k \<Longrightarrow> bitLength n = Suc k"
proof -
  assume a: "2 ^ k \<le> n" and b: "n < 2 ^ Suc k"
  then have pos: "0 < n" by (metis less_le_trans zero_less_numeral zero_less_power)
  from bitLength_bounds [OF pos] have lo: "2 ^ (bitLength n - 1) \<le> n" and hi: "n < 2 ^ bitLength n" by auto
  from a hi have "(2::nat) ^ k < 2 ^ bitLength n" by (rule le_less_trans)
  then have 1: "k < bitLength n" by (simp only: power_strict_increasing_iff semiring_norm)
  from lo b have "(2::nat) ^ (bitLength n - 1) < 2 ^ Suc k" by (rule le_less_trans)
  then have 2: "bitLength n - 1 < Suc k" by (simp only: power_strict_increasing_iff semiring_norm)
  from 1 2 show ?thesis by arith
qed


lemma roundNat_small: "n < 2 ^ 53 \<Longrightarrow> roundNat n = n"
  by (simp add: roundNat_def)

lemma roundNat_lower:
  assumes "2 ^ 53 \<le> n"
  shows "2 ^ 53 \<le> roundNat n"
proof -
  from assms have pos: "0 < n" by (metis less_le_trans zero_less_numeral zero_less_power)
  define bl where "bl = bitLength n"
  from bitLength_bounds [OF pos] have lo: "2 ^ (bl - 1) \<le> n" and hi: "n < 2 ^ bl"
    by (simp_all add: bl_def)
  from assms hi have "(2::nat) ^ 53 < 2 ^ bl" by (rule le_less_trans)
  then have bl53: "53 < bl"
    by (simp only: power_strict_increasing_iff semiring_norm)
  define e where "e = bl - 53"
  from bl53 have e: "bl - 1 = 52 + e" "0 < e" by (simp_all add: e_def)
  have "(2::nat) ^ (52 + e) div 2 ^ e \<le> n div 2 ^ e"
    using lo e by (intro div_le_mono) simp
  then have q: "2 ^ 52 \<le> n div 2 ^ e" by (simp add: power_add)
  have "(2::nat) ^ 53 \<le> 2 ^ 52 * 2 ^ e"
    using e(2) by (cases e) simp_all
  also have "\<dots> \<le> (n div 2 ^ e) * 2 ^ e" using q by simp
  finally have base: "2 ^ 53 \<le> (n div 2 ^ e) * 2 ^ e" .
  have "(n div 2 ^ e) * 2 ^ e \<le> roundNat n"
    using assms by (simp add: roundNat_def Let_def e_def bl_def)
  with base show ?thesis by simp
qed

lemma roundNat_pos: "0 < n \<Longrightarrow> 0 < roundNat n"
proof (cases "n < 2 ^ 53")
  case True
  assume "0 < n"
  with True show ?thesis by (simp add: roundNat_small)
next
  case False
  then have "2 ^ 53 \<le> roundNat n" by (intro roundNat_lower) simp
  then show ?thesis by (metis less_le_trans zero_less_numeral zero_less_power)
qed

lemma roundNat_zero: "roundNat 0 = 0"
  by (simp add: roundNat_def)

lemma big_bound: "(2::nat) ^ 53 \<le> 2 ^ 1024"
  by (rule power_increasing) simp_all

lemma toDouble_small: "\<bar>i\<bar> < 2 ^ 53 \<Longrightarrow> toDouble i = Num i"
proof -
  assume a: "\<bar>i\<bar> < 2 ^ 53"
  then have m: "nat \<bar>i\<bar> < 2 ^ 53" by (simp add: nat_less_iff)
  then have r: "roundNat (nat \<bar>i\<bar>) = nat \<bar>i\<bar>" by (rule roundNat_small)
  from m big_bound have "nat \<bar>i\<bar> < (2::nat) ^ 1024" by (rule less_le_trans)
  then have "\<not> (2::nat) ^ 1024 \<le> nat \<bar>i\<bar>" by (simp only: not_le)
  then show ?thesis by (simp add: toDouble_def r Let_def del: power_numeral)
qed

lemma notAfter_toDouble: "notAfter (toDouble i) = (i \<le> 0)"
proof (cases "i = 0")
  case True
  then show ?thesis by (simp add: toDouble_def roundNat_zero del: power_numeral)
next
  case False
  then have "0 < roundNat (nat \<bar>i\<bar>)" by (intro roundNat_pos) simp
  then show ?thesis using False by (auto simp add: toDouble_def Let_def simp del: power_numeral)
qed

lemma toDouble_nonneg:
  assumes "0 \<le> i"
  shows "toDouble i = PosInfinity \<or> (\<exists>n. toDouble i = Num n \<and> 0 \<le> n \<and> n < 2 ^ 1024)"
proof (cases "2 ^ 1024 \<le> roundNat (nat \<bar>i\<bar>)")
  case True
  with assms show ?thesis by (simp add: toDouble_def Let_def del: power_numeral)
next
  case False
  then have "roundNat (nat \<bar>i\<bar>) < 2 ^ 1024" by (simp only: not_le)
  then have "int (roundNat (nat \<bar>i\<bar>)) < 2 ^ 1024"
    by (metis of_nat_less_iff of_nat_numeral of_nat_power)
  with False assms show ?thesis by (simp add: toDouble_def Let_def del: power_numeral)
qed

lemma toDouble_large:
  assumes "2 ^ 53 \<le> i"
  shows "toDouble i = PosInfinity \<or> (\<exists>n. toDouble i = Num n \<and> 2 ^ 53 \<le> n)"
proof -
  from assms have i: "0 \<le> i" "nat \<bar>i\<bar> = nat i" by simp_all
  from assms have "2 ^ 53 \<le> nat i" by (simp add: le_nat_iff)
  then have "2 ^ 53 \<le> roundNat (nat i)" by (rule roundNat_lower)
  then have "(2::int) ^ 53 \<le> int (roundNat (nat i))"
    by (metis of_nat_le_iff of_nat_numeral of_nat_power)
  then show ?thesis using i by (simp add: toDouble_def Let_def del: power_numeral)
qed


section \<open>Strings, the pattern \<open>(\d+)p\<close> and \<open>parseInt\<close>\<close>

lemma isDigit_plain:
  "isDigit c \<Longrightarrow> \<not> isSpace c \<and> c \<noteq> CHR ''-'' \<and> c \<noteq> CHR ''+'' \<and> c \<noteq> CHR ''x'' \<and> c \<noteq> CHR ''X''"
  by (auto simp: isDigit_def isSpace_def)

lemma takeWhile_digits_app:
  "\<forall>c\<in>set N. isDigit c \<Longrightarrow> \<not> isDigit x \<Longrightarrow> takeWhile isDigit (N @ x # r) = N"
  by (induction N) auto

lemma dropWhile_digits_app:
  "\<forall>c\<in>set N. isDigit c \<Longrightarrow> \<not> isDigit x \<Longrightarrow> dropWhile isDigit (N @ x # r) = x # r"
  by (induction N) auto

lemma matchAt_run:
  assumes "N \<noteq> []" "\<forall>c\<in>set N. isDigit c"
  shows "matchAt (N @ CHR ''p'' # post) = Some N"
proof -
  have np: "\<not> isDigit (CHR ''p'')" by (simp add: isDigit_def)
  show ?thesis
    using assms np by (simp add: matchAt_def takeWhile_digits_app dropWhile_digits_app)
qed

lemma matchAt_SomeD:
  assumes "matchAt s = Some ds"
  shows "\<exists>a d b. s = a @ d # CHR ''p'' # b \<and> isDigit d \<and> ds = a @ [d] \<and> (\<forall>c\<in>set a. isDigit c)"
proof -
  from assms have ne: "takeWhile isDigit s \<noteq> []" and ds: "ds = takeWhile isDigit s"
    and dr: "\<exists>r. dropWhile isDigit s = CHR ''p'' # r"
    by (auto simp: matchAt_def Let_def split: if_splits list.splits)
  from dr obtain r where r: "dropWhile isDigit s = CHR ''p'' # r" by blast
  have s: "s = takeWhile isDigit s @ CHR ''p'' # r"
    using takeWhile_dropWhile_id [of isDigit s] r by simp
  from ne have tw: "takeWhile isDigit s = butlast (takeWhile isDigit s) @ [last (takeWhile isDigit s)]"
    by simp
  have dig: "\<forall>c\<in>set (takeWhile isDigit s). isDigit c"
    by (auto dest: set_takeWhileD)
  have "isDigit (last (takeWhile isDigit s))" using ne dig last_in_set by blast
  moreover have "\<forall>c\<in>set (butlast (takeWhile isDigit s)). isDigit c"
    using dig by (auto dest: in_set_butlastD)
  moreover have "s = butlast (takeWhile isDigit s) @ last (takeWhile isDigit s) # CHR ''p'' # r"
    using s tw by (metis append.assoc append_Cons append_Nil)
  ultimately show ?thesis using ds tw by blast
qed

lemma matchDigitsP_NoneI:
  "\<nexists>a d b. q = a @ d # CHR ''p'' # b \<and> isDigit d \<Longrightarrow> matchDigitsP q = None"
proof (induction q)
  case Nil
  then show ?case by simp
next
  case (Cons c cs)
  have "matchAt (c # cs) = None"
  proof (cases "matchAt (c # cs)")
    case (Some ds)
    from matchAt_SomeD [OF Some] Cons.prems show ?thesis by blast
  qed simp
  moreover have "\<nexists>a d b. cs = a @ d # CHR ''p'' # b \<and> isDigit d"
  proof
    assume "\<exists>a d b. cs = a @ d # CHR ''p'' # b \<and> isDigit d"
    then obtain a d b where "cs = a @ d # CHR ''p'' # b" "isDigit d" by blast
    then have "c # cs = (c # a) @ d # CHR ''p'' # b \<and> isDigit d" by simp
    with Cons.prems show False by blast
  qed
  ultimately show ?case using Cons.IH by simp
qed

lemma parseInt_digits:
  assumes "N \<noteq> []" "\<forall>c\<in>set N. isDigit c"
  shows "parseInt N = toDouble (int (digitsValue 10 N))"
proof -
  from assms obtain c r where N: "N = c # r" by (cases N) auto
  with assms have c: "isDigit c" and r: "\<forall>x\<in>set r. isDigit x" by auto
  have tw: "takeWhile isDigit N = N" using assms by (simp add: takeWhile_eq_all_conv)
  have nohex: "\<not> (case N of a # b # _ \<Rightarrow> a = CHR ''0'' \<and> (b = CHR ''x'' \<or> b = CHR ''X'') | _ \<Rightarrow> False)"
    using r N isDigit_plain by (cases r) auto
  have dw: "dropWhile isSpace N = N" using N c isDigit_plain by simp
  have sgn: "c \<noteq> CHR ''-''" "c \<noteq> CHR ''+''" using c isDigit_plain by auto
  show ?thesis
    unfolding parseInt_def dw using N sgn nohex tw assms(1)
    by (simp add: Let_def)
qed




lemma matchDigitsP_complete:
  "isDigit d \<Longrightarrow> matchDigitsP (a @ d # CHR ''p'' # b) \<noteq> None"
proof (induction a)
  case Nil
  have "matchAt (d # CHR ''p'' # b) = Some [d]"
    using matchAt_run [of "[d]" b] Nil by simp
  then show ?case by simp
next
  case (Cons c a)
  then show ?case by (cases "matchAt (c # a @ d # CHR ''p'' # b)") auto
qed

lemma no_pattern_iff:
  "(\<nexists>a d b. q = a @ d # CHR ''p'' # b \<and> isDigit d) \<longleftrightarrow> matchDigitsP q = None"
  using matchDigitsP_complete matchDigitsP_NoneI by blast

text \<open>
  Every label is of one of two kinds: no digit of it is directly followed by \<open>p\<close>, or
  it has a leftmost run of digits directly followed by \<open>p\<close>.
\<close>

lemma matchAt_Some_decomp:
  "matchAt s = Some N \<Longrightarrow> \<exists>post. s = N @ CHR ''p'' # post \<and> N \<noteq> [] \<and> (\<forall>c\<in>set N. isDigit c)"
proof -
  assume "matchAt s = Some N"
  from matchAt_SomeD [OF this] obtain a d b where
    "s = a @ d # CHR ''p'' # b" "isDigit d" "N = a @ [d]" "\<forall>c\<in>set a. isDigit c" by blast
  then have "s = N @ CHR ''p'' # b \<and> N \<noteq> [] \<and> (\<forall>c\<in>set N. isDigit c)" by auto
  then show ?thesis by blast
qed

lemma matchDigitsP_Some_decomp:
  "matchDigitsP q = Some N \<Longrightarrow>
     \<exists>pre post. q = pre @ N @ CHR ''p'' # post \<and> N \<noteq> [] \<and> (\<forall>c\<in>set N. isDigit c)
        \<and> (pre = [] \<or> \<not> isDigit (last pre))
        \<and> (\<nexists>a d b. pre = a @ d # CHR ''p'' # b \<and> isDigit d)"
proof (induction q)
  case Nil
  then show ?case by simp
next
  case (Cons c cs)
  show ?case
  proof (cases "matchAt (c # cs)")
    case (Some ds)
    with Cons.prems have "ds = N" by simp
    with matchAt_Some_decomp [OF Some] obtain post where
      "c # cs = [] @ N @ CHR ''p'' # post" "N \<noteq> []" "\<forall>c\<in>set N. isDigit c" by auto
    then show ?thesis by (metis append_is_Nil_conv list.distinct(1))
  next
    case None
    with Cons.prems have "matchDigitsP cs = Some N" by simp
    from Cons.IH [OF this] obtain pre post where
      cs: "cs = pre @ N @ CHR ''p'' # post" and N: "N \<noteq> []" "\<forall>c\<in>set N. isDigit c"
      and lst: "pre = [] \<or> \<not> isDigit (last pre)"
      and noadj: "\<nexists>a d b. pre = a @ d # CHR ''p'' # b \<and> isDigit d" by blast
    have q: "c # cs = (c # pre) @ N @ CHR ''p'' # post" using cs by simp
    have c_last: "\<not> isDigit (last (c # pre))"
    proof (cases pre)
      case Nil
      show ?thesis
      proof
        assume "isDigit (last (c # pre))"
        with Nil have "isDigit c" by simp
        with N have "matchAt ((c # N) @ CHR ''p'' # post) = Some (c # N)"
          by (intro matchAt_run) auto
        with None cs Nil show False by simp
      qed
    next
      case (Cons x xs)
      with lst show ?thesis by simp
    qed
    have c_noadj: "\<nexists>a d b. c # pre = a @ d # CHR ''p'' # b \<and> isDigit d"
    proof
      assume "\<exists>a d b. c # pre = a @ d # CHR ''p'' # b \<and> isDigit d"
      then obtain a d b where e: "c # pre = a @ d # CHR ''p'' # b" and d: "isDigit d" by blast
      show False
      proof (cases a)
        case Nil
        with e have "c = d" "pre = CHR ''p'' # b" by auto
        with d have "matchAt ([c] @ CHR ''p'' # (b @ N @ CHR ''p'' # post)) = Some [c]"
          by (intro matchAt_run) auto
        with None cs \<open>pre = CHR ''p'' # b\<close> show False by simp
      next
        case (Cons x a')
        with e have "pre = a' @ d # CHR ''p'' # b" by simp
        with d noadj show False by blast
      qed
    qed
    from q N c_last c_noadj show ?thesis by blast
  qed
qed

lemma label_cases:
  "(\<nexists>a d b. q = a @ d # CHR ''p'' # b \<and> isDigit d)
   \<or> (\<exists>pre N post. q = pre @ N @ CHR ''p'' # post \<and> N \<noteq> [] \<and> (\<forall>c\<in>set N. isDigit c)
        \<and> (pre = [] \<or> \<not> isDigit (last pre))
        \<and> (\<nexists>a d b. pre = a @ d # CHR ''p'' # b \<and> isDigit d))"
proof (cases "matchDigitsP q")
  case None
  then show ?thesis using no_pattern_iff by blast
next
  case (Some N)
  from matchDigitsP_Some_decomp [OF Some] show ?thesis by blast
qed


lemma str_includes_iff: "str_includes s sub \<longleftrightarrow> (\<exists>pre post. s = pre @ sub @ post)"
proof (induction s)
  case Nil
  then show ?case by auto
next
  case (Cons c cs)
  show ?case
  proof
    assume "str_includes (c # cs) sub"
    then consider "take (length sub) (c # cs) = sub" | "str_includes cs sub" by auto
    then show "\<exists>pre post. c # cs = pre @ sub @ post"
    proof cases
      case 1
      then have "c # cs = [] @ sub @ drop (length sub) (c # cs)"
        by (metis append_Nil append_take_drop_id)
      then show ?thesis by blast
    next
      case 2
      with Cons.IH obtain pre post where "cs = pre @ sub @ post" by blast
      then have "c # cs = (c # pre) @ sub @ post" by simp
      then show ?thesis by blast
    qed
  next
    assume "\<exists>pre post. c # cs = pre @ sub @ post"
    then obtain pre post where w: "c # cs = pre @ sub @ post" by blast
    show "str_includes (c # cs) sub"
    proof (cases pre)
      case Nil
      with w have "take (length sub) (c # cs) = sub" by simp
      then show ?thesis by simp
    next
      case (Cons x pre')
      with w have "cs = pre' @ sub @ post" by simp
      with Cons.IH have "str_includes cs sub" by blast
      then show ?thesis by simp
    qed
  qed
qed

lemma matchDigitsP_digits:
  "matchDigitsP q = Some m \<Longrightarrow> m \<noteq> [] \<and> (\<forall>c\<in>set m. isDigit c)"
proof (induction q)
  case Nil
  then show ?case by simp
next
  case (Cons c cs)
  show ?case
  proof (cases "matchAt (c # cs)")
    case None
    with Cons show ?thesis by simp
  next
    case (Some ds)
    with Cons.prems have "ds = m" by simp
    with matchAt_SomeD [OF Some] show ?thesis by auto
  qed
qed

text \<open>A quality number is a double that is not negative, or \<open>Infinity\<close>.\<close>

lemma getQualityNum_range:
  "getQualityNum q = PosInfinity \<or> (\<exists>n. getQualityNum q = Num n \<and> 0 \<le> n \<and> n < 2 ^ 1024)"
proof (cases "matchDigitsP q")
  case None
  have "(0::int) < 2 ^ 1024" by (rule zero_less_power) simp
  with None show ?thesis by (simp add: getQualityNum_def del: power_numeral)
next
  case (Some m)
  from matchDigitsP_digits [OF Some] have "parseInt m = toDouble (int (digitsValue 10 m))"
    by (simp add: parseInt_digits)
  with Some have "getQualityNum q = toDouble (int (digitsValue 10 m))"
    by (simp add: getQualityNum_def)
  with toDouble_nonneg [of "int (digitsValue 10 m)"] show ?thesis by simp
qed


section \<open>The stable sort\<close>

lemma mset_insertSorted: "mset (insertSorted cmp x ys) = add_mset x (mset ys)"
  by (induction ys) auto

lemma set_insertSorted: "set (insertSorted cmp x ys) = insert x (set ys)"
  by (induction ys) auto

lemma mset_js_sort: "mset (js_sort cmp xs) = mset xs"
  by (induction xs) (simp_all add: js_sort_def mset_insertSorted)

lemma sorted_insertSorted:
  fixes key :: "'a \<Rightarrow> int"
  assumes cmp: "\<And>x y. notAfter (cmp x y) = (key y \<le> key x)"
  shows "sorted_wrt (\<lambda>a b. key b \<le> key a) ys \<Longrightarrow> sorted_wrt (\<lambda>a b. key b \<le> key a) (insertSorted cmp x ys)"
proof (induction ys)
  case Nil
  then show ?case by simp
next
  case (Cons y ys)
  show ?case
  proof (cases "key y \<le> key x")
    case True
    with Cons.prems show ?thesis by (auto simp: cmp)
  next
    case False
    with Cons show ?thesis by (auto simp: cmp set_insertSorted)
  qed
qed

lemma sorted_js_sort:
  fixes key :: "'a \<Rightarrow> int"
  assumes cmp: "\<And>x y. notAfter (cmp x y) = (key y \<le> key x)"
  shows "sorted_wrt (\<lambda>a b. key b \<le> key a) (js_sort cmp xs)"
proof (induction xs)
  case Nil
  then show ?case by (simp add: js_sort_def)
next
  case (Cons x xs)
  have "js_sort cmp (x # xs) = insertSorted cmp x (js_sort cmp xs)" by (simp add: js_sort_def)
  with Cons sorted_insertSorted [of cmp key, OF cmp] show ?case by simp
qed

lemma filter_insertSorted:
  fixes key :: "'a \<Rightarrow> int"
  assumes cmp: "\<And>x y. notAfter (cmp x y) = (key y \<le> key x)"
  shows "filter (\<lambda>e. key e = k) (insertSorted cmp x ys) = filter (\<lambda>e. key e = k) (x # ys)"
  by (induction ys) (auto simp: cmp)

lemma filter_js_sort:
  fixes key :: "'a \<Rightarrow> int"
  assumes cmp: "\<And>x y. notAfter (cmp x y) = (key y \<le> key x)"
  shows "filter (\<lambda>e. key e = k) (js_sort cmp xs) = filter (\<lambda>e. key e = k) xs"
proof (induction xs)
  case Nil
  then show ?case by (simp add: js_sort_def)
next
  case (Cons x xs)
  have "js_sort cmp (x # xs) = insertSorted cmp x (js_sort cmp xs)" by (simp add: js_sort_def)
  with Cons filter_insertSorted [of cmp key k x "js_sort cmp xs", OF cmp] show ?case by simp
qed

text \<open>
  For a comparator that compares a numeric key, the result of \<open>js_sort\<close> is the only
  arrangement of the input that is in descending order of the key and stable; any
  stable sorting algorithm of an engine returns that list.
\<close>

lemma js_sort_eq_sort_key:
  fixes key :: "'a \<Rightarrow> int"
  assumes cmp: "\<And>x y. notAfter (cmp x y) = (key y \<le> key x)"
  shows "js_sort cmp xs = sort_key (\<lambda>e. - key e) xs"
proof (rule sym, rule properties_for_sort_key)
  show "mset (js_sort cmp xs) = mset xs" by (rule mset_js_sort)
  show "filter (\<lambda>x. - key k = - key x) (js_sort cmp xs) = filter (\<lambda>x. - key k = - key x) xs" for k
    using filter_js_sort [of cmp key "key k" xs, OF cmp] by (simp add: eq_commute)
  have "sorted_wrt (\<lambda>a b. key b \<le> key a) (js_sort cmp xs)"
    by (rule sorted_js_sort) (rule cmp)
  then show "sorted (map (\<lambda>e. - key e) (js_sort cmp xs))"
    by (simp add: sorted_map)
qed

lemma js_sort_unique:
  fixes key :: "'a \<Rightarrow> int"
  assumes cmp: "\<And>x y. notAfter (cmp x y) = (key y \<le> key x)"
      and perm: "mset ys = mset xs"
      and sorted: "sorted_wrt (\<lambda>a b. key b \<le> key a) ys"
      and stable: "\<And>k. filter (\<lambda>e. key e = k) ys = filter (\<lambda>e. key e = k) xs"
  shows "ys = js_sort cmp xs"
proof -
  have "sort_key (\<lambda>e. - key e) xs = ys"
  proof (rule properties_for_sort_key)
    show "mset ys = mset xs" by (rule perm)
    show "filter (\<lambda>x. - key k = - key x) ys = filter (\<lambda>x. - key k = - key x) xs" for k
      using stable [of "key k"] by (simp add: eq_commute)
    show "sorted (map (\<lambda>e. - key e) ys)" using sorted by (simp add: sorted_map)
  qed
  then show ?thesis by (simp add: js_sort_eq_sort_key [of cmp key, OF cmp])
qed

text \<open>
  The comparator orders by the quality number, \<open>Infinity\<close> above every double: as an
  integer key, \<open>Infinity\<close> is put at \<open>2^1024\<close>, which no double reaches.
\<close>

lemma compareFn_key:
  "notAfter (compareFn x y) =
     ((case getQualityNum (v_quality y) of Num n \<Rightarrow> n | PosInfinity \<Rightarrow> 2 ^ 1024 | _ \<Rightarrow> 0)
      \<le> (case getQualityNum (v_quality x) of Num n \<Rightarrow> n | PosInfinity \<Rightarrow> 2 ^ 1024 | _ \<Rightarrow> 0))"
proof -
  from getQualityNum_range [of "v_quality x"] getQualityNum_range [of "v_quality y"]
  consider
      (fin_fin) a b where "getQualityNum (v_quality x) = Num a" "getQualityNum (v_quality y) = Num b"
    | (fin_inf) a where "getQualityNum (v_quality x) = Num a" "a < 2 ^ 1024"
        "getQualityNum (v_quality y) = PosInfinity"
    | (inf_fin) b where "getQualityNum (v_quality x) = PosInfinity"
        "getQualityNum (v_quality y) = Num b" "b < 2 ^ 1024"
    | (inf_inf) "getQualityNum (v_quality x) = PosInfinity" "getQualityNum (v_quality y) = PosInfinity"
    by blast
  then show ?thesis
  proof cases
    case fin_fin
    then show ?thesis by (simp add: compareFn_def notAfter_toDouble del: power_numeral)
  next
    case fin_inf
    then show ?thesis by (simp add: compareFn_def del: power_numeral)
  next
    case inf_fin
    then show ?thesis by (simp add: compareFn_def del: power_numeral)
  next
    case inf_inf
    then show ?thesis by (simp add: compareFn_def del: power_numeral)
  qed
qed


section \<open>The extracted quality number\<close>

lemma bitLength_54: "bitLength 9007199254740993 = 54"
  using bitLength_eq [of 53 9007199254740993] by simp

lemma toDouble_of_round:
  assumes "0 \<le> i" "roundNat (nat i) = m" "m < 2 ^ 54"
  shows "toDouble i = Num (int m)"
proof -
  have "(2::nat) ^ 54 \<le> 2 ^ 1024" by (rule power_increasing) simp_all
  with assms(3) have "m < 2 ^ 1024" by (rule less_le_trans)
  then have "\<not> 2 ^ 1024 \<le> m" by (simp only: not_le)
  with assms(1,2) show ?thesis by (simp add: toDouble_def Let_def del: power_numeral)
qed

lemma toDouble_tie: "toDouble 9007199254740993 = Num 9007199254740992"
proof -
  have "roundNat (nat 9007199254740993) = 9007199254740992"
    by (simp add: roundNat_def bitLength_54 Let_def)
  from toDouble_of_round [OF _ this] show ?thesis by simp
qed

lemma toDouble_2_53: "toDouble 9007199254740992 = Num 9007199254740992"
proof -
  have "bitLength 9007199254740992 = 54"
    using bitLength_eq [of 53 9007199254740992] by simp
  then have "roundNat (nat 9007199254740992) = 9007199254740992"
    by (simp add: roundNat_def Let_def)
  from toDouble_of_round [OF _ this] show ?thesis by simp
qed








section \<open>The order of the video list\<close>

text \<open>
  Claim C5, as amended. The video list is ordered by descending quality number, not
  strictly: an earlier entry's number is never smaller than a later entry's (it is
  \<open>Infinity\<close>, or both are doubles and the earlier is at least the later). The sort
  is stable (for every value \<open>k\<close> the entries with quality number \<open>k\<close> come in the
  order of the input), and it only permutes the mapped entries of the formats with
  \<open>hasVideo\<close>.
\<close>

theorem videoFormats_sorted_stable:
  "sorted_wrt (\<lambda>a b. getQualityNum (v_quality a) = PosInfinity
        \<or> (\<exists>x y. getQualityNum (v_quality a) = Num x \<and> getQualityNum (v_quality b) = Num y \<and> y \<le> x))
     (videoFormats fs)
   \<and> (\<forall>k. filter (\<lambda>e. getQualityNum (v_quality e) = k) (videoFormats fs)
          = filter (\<lambda>e. getQualityNum (v_quality e) = k) (map videoEntryOf (filter hasVideo fs)))
   \<and> mset (videoFormats fs) = mset (map videoEntryOf (filter hasVideo fs))"
proof (intro conjI allI)
  let ?key = "\<lambda>e. case getQualityNum (v_quality e) of Num n \<Rightarrow> n | PosInfinity \<Rightarrow> 2 ^ 1024 | _ \<Rightarrow> 0"
  let ?xs = "map videoEntryOf (filter hasVideo fs)"
  have range: "getQualityNum (v_quality e) = PosInfinity
      \<or> (\<exists>n. getQualityNum (v_quality e) = Num n \<and> 0 \<le> n \<and> n < 2 ^ 1024)" for e :: videoEntry
    by (rule getQualityNum_range)
  have "sorted_wrt (\<lambda>a b. ?key b \<le> ?key a) (js_sort compareFn ?xs)"
    by (rule sorted_js_sort) (rule compareFn_key)
  moreover have "getQualityNum (v_quality a) = PosInfinity
        \<or> (\<exists>x y. getQualityNum (v_quality a) = Num x \<and> getQualityNum (v_quality b) = Num y \<and> y \<le> x)"
    if "?key b \<le> ?key a" for a b :: videoEntry
    using that range [of a] range [of b] by (auto simp del: power_numeral)
  ultimately show "sorted_wrt (\<lambda>a b. getQualityNum (v_quality a) = PosInfinity
        \<or> (\<exists>x y. getQualityNum (v_quality a) = Num x \<and> getQualityNum (v_quality b) = Num y \<and> y \<le> x))
     (videoFormats fs)"
    unfolding videoFormats_def by (rule sorted_wrt_mono_rel [rotated]) blast
  show "filter (\<lambda>e. getQualityNum (v_quality e) = k) (videoFormats fs)
          = filter (\<lambda>e. getQualityNum (v_quality e) = k) ?xs" for k
  proof (cases "\<exists>e :: videoEntry. getQualityNum (v_quality e) = k")
    case False
    then have "getQualityNum (v_quality e) \<noteq> k" for e :: videoEntry by blast
    then show ?thesis by simp
  next
    case True
    then obtain e0 :: videoEntry where e0: "getQualityNum (v_quality e0) = k" by blast
    have "(getQualityNum (v_quality e) = k) = (?key e = ?key e0)" for e :: videoEntry
      using range [of e] range [of e0] e0 by (auto simp del: power_numeral)
    moreover have "filter (\<lambda>e. ?key e = ?key e0) (js_sort compareFn ?xs) = filter (\<lambda>e. ?key e = ?key e0) ?xs"
      by (rule filter_js_sort) (rule compareFn_key)
    ultimately show ?thesis by (simp add: videoFormats_def del: power_numeral)
  qed
  show "mset (videoFormats fs) = mset ?xs"
    by (simp add: videoFormats_def mset_js_sort)
qed

text \<open>
  Two formats labelled \<open>720p\<close>: both stay in the list, next to each other, with the
  same quality number, so the order is not strict.
\<close>

lemma getQualityNum_720p: "getQualityNum ''720p'' = Num 720"
proof -
  have "digitsValue 10 ''720'' = 720" by (simp add: digitsValue_def digitVal_def)
  then have "parseInt ''720'' = Num 720"
    using parseInt_digits [of "''720''"] by (simp add: isDigit_def toDouble_small)
  then show ?thesis by (simp add: getQualityNum_def matchAt_def isDigit_def)
qed

theorem videoFormats_strict_counterexample:
  "length (videoFormats
     [\<lparr> qualityLabel = Some ''720p'', quality = Some ''hd720'', audioQuality = None, url = ''a'',
          mimeType = Some ''video/mp4'', hasVideo = True, hasAudio = False,
          contentLength = None, container = ''mp4'', codecs = None \<rparr>,
      \<lparr> qualityLabel = Some ''720p'', quality = Some ''hd720'', audioQuality = None, url = ''b'',
          mimeType = Some ''video/webm'', hasVideo = True, hasAudio = False,
          contentLength = None, container = ''webm'', codecs = None \<rparr>]) = 2
   \<and> getQualityNum (v_quality (videoFormats
     [\<lparr> qualityLabel = Some ''720p'', quality = Some ''hd720'', audioQuality = None, url = ''a'',
          mimeType = Some ''video/mp4'', hasVideo = True, hasAudio = False,
          contentLength = None, container = ''mp4'', codecs = None \<rparr>,
      \<lparr> qualityLabel = Some ''720p'', quality = Some ''hd720'', audioQuality = None, url = ''b'',
          mimeType = Some ''video/webm'', hasVideo = True, hasAudio = False,
          contentLength = None, container = ''webm'', codecs = None \<rparr>] ! 0)) = Num 720
   \<and> getQualityNum (v_quality (videoFormats
     [\<lparr> qualityLabel = Some ''720p'', quality = Some ''hd720'', audioQuality = None, url = ''a'',
          mimeType = Some ''video/mp4'', hasVideo = True, hasAudio = False,
          contentLength = None, container = ''mp4'', codecs = None \<rparr>,
      \<lparr> qualityLabel = Some ''720p'', quality = Some ''hd720'', audioQuality = None, url = ''b'',
          mimeType = Some ''video/webm'', hasVideo = True, hasAudio = False,
          contentLength = None, container = ''webm'', codecs = None \<rparr>] ! 1)) = Num 720"
proof -
  have c: "compareFn e1 e2 = Num 0" if "v_quality e1 = ''720p''" "v_quality e2 = ''720p''" for e1 e2
    using that by (simp add: compareFn_def getQualityNum_720p toDouble_small)
  have "videoFormats
     [\<lparr> qualityLabel = Some ''720p'', quality = Some ''hd720'', audioQuality = None, url = ''a'',
          mimeType = Some ''video/mp4'', hasVideo = True, hasAudio = False,
          contentLength = None, container = ''mp4'', codecs = None \<rparr>,
      \<lparr> qualityLabel = Some ''720p'', quality = Some ''hd720'', audioQuality = None, url = ''b'',
          mimeType = Some ''video/webm'', hasVideo = True, hasAudio = False,
          contentLength = None, container = ''webm'', codecs = None \<rparr>]
    = [videoEntryOf \<lparr> qualityLabel = Some ''720p'', quality = Some ''hd720'', audioQuality = None, url = ''a'',
          mimeType = Some ''video/mp4'', hasVideo = True, hasAudio = False,
          contentLength = None, container = ''mp4'', codecs = None \<rparr>,
       videoEntryOf \<lparr> qualityLabel = Some ''720p'', quality = Some ''hd720'', audioQuality = None, url = ''b'',
          mimeType = Some ''video/webm'', hasVideo = True, hasAudio = False,
          contentLength = None, container = ''webm'', codecs = None \<rparr>]"
    by (simp add: videoFormats_def js_sort_def c videoEntryOf_def)
  then show ?thesis by (simp add: videoEntryOf_def getQualityNum_720p)
qed

text \<open>
  Beyond \<open>2^53\<close> two labels can round to one number: the second of these two formats
  has the larger label and the same quality number, and it stays second.
\<close>

lemma videoFormats_rounded_keys:
  "map v_url (videoFormats
     [\<lparr> qualityLabel = Some ''9007199254740992p'', quality = Some ''highres'', audioQuality = None, url = ''a'',
          mimeType = Some ''video/mp4'', hasVideo = True, hasAudio = False,
          contentLength = None, container = ''mp4'', codecs = None \<rparr>,
      \<lparr> qualityLabel = Some ''9007199254740993p'', quality = Some ''highres'', audioQuality = None, url = ''b'',
          mimeType = Some ''video/mp4'', hasVideo = True, hasAudio = False,
          contentLength = None, container = ''mp4'', codecs = None \<rparr>]) = [''a'', ''b'']"
proof -
  have v: "digitsValue 10 ''9007199254740992'' = 9007199254740992"
    "digitsValue 10 ''9007199254740993'' = 9007199254740993"
    by (simp_all add: digitsValue_def digitVal_def)
  note e = toDouble_2_53
  have "parseInt ''9007199254740992'' = Num 9007199254740992"
    using parseInt_digits [of "''9007199254740992''"] v e by (simp add: isDigit_def)
  then have a: "getQualityNum ''9007199254740992p'' = Num 9007199254740992"
    by (simp add: getQualityNum_def matchAt_def isDigit_def)
  have "parseInt ''9007199254740993'' = Num 9007199254740992"
    using parseInt_digits [of "''9007199254740993''"] v toDouble_tie by (simp add: isDigit_def)
  then have b: "getQualityNum ''9007199254740993p'' = Num 9007199254740992"
    by (simp add: getQualityNum_def matchAt_def isDigit_def)
  show ?thesis
    by (simp add: videoFormats_def js_sort_def compareFn_def videoEntryOf_def a b toDouble_small)
qed


section \<open>The buckets of the classifier\<close>




text \<open>
  Claim C1, as amended. The video list holds exactly the entries of the formats with
  \<open>hasVideo\<close> (a combined format is there, and only there), the audio list exactly the
  entries of the formats with \<open>hasAudio\<close> and without \<open>hasVideo\<close>, in the order of the
  input. The two selections exclude each other, and together with the formats that
  have neither flag, which go to no list, they make up the whole input.
\<close>

theorem buckets_partition:
  "mset (videoFormats fs) = image_mset videoEntryOf (filter_mset hasVideo (mset fs))
   \<and> audioFormats fs = map audioEntryOf (filter (\<lambda>f. hasAudio f \<and> \<not> hasVideo f) fs)
   \<and> length (videoFormats fs) + length (audioFormats fs)
       + length (filter (\<lambda>f. \<not> hasVideo f \<and> \<not> hasAudio f) fs) = length fs"
proof (intro conjI)
  show "mset (videoFormats fs) = image_mset videoEntryOf (filter_mset hasVideo (mset fs))"
    by (simp add: videoFormats_def mset_js_sort)
  show "audioFormats fs = map audioEntryOf (filter (\<lambda>f. hasAudio f \<and> \<not> hasVideo f) fs)"
    by (simp add: audioFormats_def)
  have "length (videoFormats fs) = length (filter hasVideo fs)"
    using mset_js_sort [of compareFn "map videoEntryOf (filter hasVideo fs)"]
    by (metis videoFormats_def length_map size_mset)
  moreover have "length (filter hasVideo fs) + length (filter (\<lambda>f. hasAudio f \<and> \<not> hasVideo f) fs)
       + length (filter (\<lambda>f. \<not> hasVideo f \<and> \<not> hasAudio f) fs) = length fs"
    by (induction fs) auto
  ultimately show "length (videoFormats fs) + length (audioFormats fs)
       + length (filter (\<lambda>f. \<not> hasVideo f \<and> \<not> hasAudio f) fs) = length fs"
    by (simp add: audioFormats_def)
qed

text \<open>A format whose two flags are both false is in neither list.\<close>

theorem buckets_left_out_counterexample:
  "videoFormats
     [\<lparr> qualityLabel = None, quality = Some ''tiny'', audioQuality = Some ''AUDIO_QUALITY_LOW'',
        url = ''u'', mimeType = Some ''audio/mp4'', hasVideo = False, hasAudio = False,
        contentLength = None, container = ''mp4'', codecs = None \<rparr>] = []
   \<and> audioFormats
     [\<lparr> qualityLabel = None, quality = Some ''tiny'', audioQuality = Some ''AUDIO_QUALITY_LOW'',
        url = ''u'', mimeType = Some ''audio/mp4'', hasVideo = False, hasAudio = False,
        contentLength = None, container = ''mp4'', codecs = None \<rparr>] = []"
  by (simp add: videoFormats_def audioFormats_def js_sort_def)






section \<open>Missing metadata\<close>

text \<open>
  Claim C6, as amended. When the thumbnail list of the metadata is present (it may be
  empty) and the format list is an array, \<open>formatVideoData\<close> returns a response: the
  image is \<open>undefined\<close> for an empty list, the author is \<open>Unknown\<close> when the author or
  its name is missing, and the description is passed on as it is, \<open>undefined\<close> when
  missing.
\<close>

theorem formatVideoData_defaults:
  "thumbnails (videoDetails vi) = Some ths \<longrightarrow>
     (\<exists>d. formatVideoData vi (Some fs) = Inr d
        \<and> (ths = [] \<longrightarrow> r_image d = None)
        \<and> (ths \<noteq> [] \<longrightarrow> r_image d = t_url (last ths))
        \<and> (author (videoDetails vi) = None \<longrightarrow> r_author d = ''Unknown'')
        \<and> (\<forall>a. author (videoDetails vi) = Some a \<and> \<not> truthy (name a) \<longrightarrow> r_author d = ''Unknown'')
        \<and> r_description d = description (videoDetails vi))"
proof
  assume ths: "thumbnails (videoDetails vi) = Some ths"
  then obtain d where d: "formatVideoData vi (Some fs) = Inr d"
    by (simp add: formatVideoData_def)
  with ths have image: "r_image d = (if ths = [] then None else t_url (last ths))"
    and auth: "r_author d = (case author (videoDetails vi) of None \<Rightarrow> ''Unknown''
                  | Some a \<Rightarrow> if truthy (name a) then the (name a) else ''Unknown'')"
    and descr: "r_description d = description (videoDetails vi)"
    by (auto simp: formatVideoData_def)
  from auth have "author (videoDetails vi) = None \<longrightarrow> r_author d = ''Unknown''"
    and "\<forall>a. author (videoDetails vi) = Some a \<and> \<not> truthy (name a) \<longrightarrow> r_author d = ''Unknown''"
    by auto
  with d image descr show "\<exists>d. formatVideoData vi (Some fs) = Inr d
        \<and> (ths = [] \<longrightarrow> r_image d = None)
        \<and> (ths \<noteq> [] \<longrightarrow> r_image d = t_url (last ths))
        \<and> (author (videoDetails vi) = None \<longrightarrow> r_author d = ''Unknown'')
        \<and> (\<forall>a. author (videoDetails vi) = Some a \<and> \<not> truthy (name a) \<longrightarrow> r_author d = ''Unknown'')
        \<and> r_description d = description (videoDetails vi)"
    by auto
qed

theorem formatVideoData_defaults_witness:
  "\<exists>d. formatVideoData
      \<lparr> videoDetails = \<lparr> title = ''T'', thumbnails = Some [], description = None,
                           lengthSeconds = ''1'', author = None, viewCount = ''0'' \<rparr>,
          formats = None \<rparr>
      (Some [\<lparr> qualityLabel = Some ''720p'', quality = Some ''hd720'', audioQuality = None, url = ''a'',
          mimeType = Some ''video/mp4'', hasVideo = True, hasAudio = True,
          contentLength = None, container = ''mp4'', codecs = None \<rparr>, \<lparr> qualityLabel = None, quality = Some ''tiny'', audioQuality = Some ''AUDIO_QUALITY_LOW'', url = ''b'',
          mimeType = Some ''audio/webm'', hasVideo = False, hasAudio = True,
          contentLength = None, container = ''webm'', codecs = None \<rparr>]) = Inr d
     \<and> r_image d = None \<and> r_author d = ''Unknown'' \<and> r_description d = None"
  using formatVideoData_defaults [of "\<lparr> videoDetails = \<lparr> title = ''T'', thumbnails = Some [], description = None,
                           lengthSeconds = ''1'', author = None, viewCount = ''0'' \<rparr>,
          formats = None \<rparr>" "[]" "[\<lparr> qualityLabel = Some ''720p'', quality = Some ''hd720'', audioQuality = None, url = ''a'',
          mimeType = Some ''video/mp4'', hasVideo = True, hasAudio = True,
          contentLength = None, container = ''mp4'', codecs = None \<rparr>, \<lparr> qualityLabel = None, quality = Some ''tiny'', audioQuality = Some ''AUDIO_QUALITY_LOW'', url = ''b'',
          mimeType = Some ''audio/webm'', hasVideo = False, hasAudio = True,
          contentLength = None, container = ''webm'', codecs = None \<rparr>]"]
  by simp

text \<open>
  With the thumbnail list itself missing, reading its \<open>length\<close> throws inside the
  classifier.
\<close>

theorem formatVideoData_raises_counterexample:
  "formatVideoData
      \<lparr> videoDetails = \<lparr> title = ''T'', thumbnails = None, description = Some ''D'',
                           lengthSeconds = ''1'', author = Some \<lparr> name = Some ''A'' \<rparr>, viewCount = ''0'' \<rparr>,
          formats = None \<rparr>
      (Some [\<lparr> qualityLabel = Some ''720p'', quality = Some ''hd720'', audioQuality = None, url = ''a'',
          mimeType = Some ''video/mp4'', hasVideo = True, hasAudio = True,
          contentLength = None, container = ''mp4'', codecs = None \<rparr>])
   = Inl (TypeError (cannotRead ''length''))"
  by (simp add: formatVideoData_def)


section \<open>The constant \<open>expiresInSeconds\<close>\<close>

text \<open>
  Claim C10. Every response that \<open>formatVideoData\<close> returns, and so the body of every
  answer of \<open>/extract\<close> with status 200, has \<open>expiresInSeconds\<close> equal to the string
  \<open>21540\<close>, whatever the URL, the metadata and the formats.
\<close>

theorem expiresInSeconds_constant:
  "(formatVideoData vi fs = Inr d \<longrightarrow> expiresInSeconds d = ''21540'')
   \<and> (status (extractHandler validateURL getInfo url_param) = 200 \<longrightarrow>
        (\<exists>d. body (extractHandler validateURL getInfo url_param) = Extracted d
            \<and> expiresInSeconds d = ''21540''))"
proof (intro conjI impI)
  assume "formatVideoData vi fs = Inr d"
  then show "expiresInSeconds d = ''21540''"
    by (auto simp: formatVideoData_def split: option.splits)
next
  have fvd: "expiresInSeconds d' = ''21540''" if "formatVideoData v f = Inr d'" for v f d'
    using that by (auto simp: formatVideoData_def split: option.splits)
  assume "status (extractHandler validateURL getInfo url_param) = 200"
  then show "\<exists>d. body (extractHandler validateURL getInfo url_param) = Extracted d
            \<and> expiresInSeconds d = ''21540''"
    by (auto simp: extractHandler_def fvd split: if_splits sum.splits option.splits)
qed

theorem expiresInSeconds_constant_witness:
  "status (extractHandler (\<lambda>u. True)
      (\<lambda>u. Inr \<lparr> videoDetails = \<lparr> title = ''T'', thumbnails = Some [], description = None,
                           lengthSeconds = ''1'', author = None, viewCount = ''0'' \<rparr>,
          formats = Some [\<lparr> qualityLabel = Some ''720p'', quality = Some ''hd720'', audioQuality = None, url = ''a'',
          mimeType = Some ''video/mp4'', hasVideo = True, hasAudio = True,
          contentLength = None, container = ''mp4'', codecs = None \<rparr>, \<lparr> qualityLabel = None, quality = Some ''tiny'', audioQuality = Some ''AUDIO_QUALITY_LOW'', url = ''b'',
          mimeType = Some ''audio/webm'', hasVideo = False, hasAudio = True,
          contentLength = None, container = ''webm'', codecs = None \<rparr>] \<rparr>)
      (Some ''https://youtu.be/x'')) = 200
   \<and> (\<exists>d. formatVideoData
      \<lparr> videoDetails = \<lparr> title = ''T'', thumbnails = Some [], description = None,
                           lengthSeconds = ''1'', author = None, viewCount = ''0'' \<rparr>,
          formats = Some [\<lparr> qualityLabel = Some ''720p'', quality = Some ''hd720'', audioQuality = None, url = ''a'',
          mimeType = Some ''video/mp4'', hasVideo = True, hasAudio = True,
          contentLength = None, container = ''mp4'', codecs = None \<rparr>, \<lparr> qualityLabel = None, quality = Some ''tiny'', audioQuality = Some ''AUDIO_QUALITY_LOW'', url = ''b'',
          mimeType = Some ''audio/webm'', hasVideo = False, hasAudio = True,
          contentLength = None, container = ''webm'', codecs = None \<rparr>] \<rparr>
      (Some [\<lparr> qualityLabel = Some ''720p'', quality = Some ''hd720'', audioQuality = None, url = ''a'',
          mimeType = Some ''video/mp4'', hasVideo = True, hasAudio = True,
          contentLength = None, container = ''mp4'', codecs = None \<rparr>, \<lparr> qualityLabel = None, quality = Some ''tiny'', audioQuality = Some ''AUDIO_QUALITY_LOW'', url = ''b'',
          mimeType = Some ''audio/webm'', hasVideo = False, hasAudio = True,
          contentLength = None, container = ''webm'', codecs = None \<rparr>]) = Inr d \<and> expiresInSeconds d = ''21540'')
   \<and> (\<exists>d. body (extractHandler (\<lambda>u. True)
      (\<lambda>u. Inr \<lparr> videoDetails = \<lparr> title = ''T'', thumbnails = Some [], description = None,
                           lengthSeconds = ''1'', author = None, viewCount = ''0'' \<rparr>,
          formats = Some [\<lparr> qualityLabel = Some ''720p'', quality = Some ''hd720'', audioQuality = None, url = ''a'',
          mimeType = Some ''video/mp4'', hasVideo = True, hasAudio = True,
          contentLength = None, container = ''mp4'', codecs = None \<rparr>, \<lparr> qualityLabel = None, quality = Some ''tiny'', audioQuality = Some ''AUDIO_QUALITY_LOW'', url = ''b'',
          mimeType = Some ''audio/webm'', hasVideo = False, hasAudio = True,
          contentLength = None, container = ''webm'', codecs = None \<rparr>] \<rparr>)
      (Some ''https://youtu.be/x'')) = Extracted d \<and> expiresInSeconds d = ''21540'')"
proof -
  let ?vi = "\<lparr> videoDetails = \<lparr> title = ''T'', thumbnails = Some [], description = None,
                           lengthSeconds = ''1'', author = None, viewCount = ''0'' \<rparr>,
          formats = Some [\<lparr> qualityLabel = Some ''720p'', quality = Some ''hd720'', audioQuality = None, url = ''a'',
          mimeType = Some ''video/mp4'', hasVideo = True, hasAudio = True,
          contentLength = None, container = ''mp4'', codecs = None \<rparr>, \<lparr> qualityLabel = None, quality = Some ''tiny'', audioQuality = Some ''AUDIO_QUALITY_LOW'', url = ''b'',
          mimeType = Some ''audio/webm'', hasVideo = False, hasAudio = True,
          contentLength = None, container = ''webm'', codecs = None \<rparr>] \<rparr>"
  let ?fs = "[\<lparr> qualityLabel = Some ''720p'', quality = Some ''hd720'', audioQuality = None, url = ''a'',
          mimeType = Some ''video/mp4'', hasVideo = True, hasAudio = True,
          contentLength = None, container = ''mp4'', codecs = None \<rparr>, \<lparr> qualityLabel = None, quality = Some ''tiny'', audioQuality = Some ''AUDIO_QUALITY_LOW'', url = ''b'',
          mimeType = Some ''audio/webm'', hasVideo = False, hasAudio = True,
          contentLength = None, container = ''webm'', codecs = None \<rparr>]"
  let ?g = "\<lambda>u :: string. (Inr ?vi :: js_error + videoInfo)"
  let ?u = "Some ''https://youtu.be/x''"
  obtain d where d: "formatVideoData ?vi (Some ?fs) = Inr d"
    by (simp add: formatVideoData_def)
  have s: "status (extractHandler (\<lambda>u. True) ?g ?u) = 200"
    by (simp add: extractHandler_def formatVideoData_def)
  from expiresInSeconds_constant [of ?vi "Some ?fs" d "\<lambda>u. True" ?g ?u] d s
  show ?thesis by blast
qed

section \<open>\<open>GET /extract\<close>: the status of the answer\<close>

lemma includes_eval:
  "str_includes ''Video unavailable'' ''Video unavailable''"
  "\<not> str_includes ''Sign in to confirm your age'' ''Video unavailable''"
  "str_includes ''Sign in to confirm your age'' ''Sign in to confirm''"
  "\<not> str_includes ''Status code: 410'' ''Video unavailable''"
  "\<not> str_includes ''Status code: 410'' ''Sign in to confirm''"
  by simp_all

text \<open>
  Claim C7. The handler answers 400 when the \<open>url\<close> parameter is missing (or empty) and
  when the validator rejects it. When the resolver throws, the message is tested in this
  order: containing \<open>Video unavailable\<close> gives 404; otherwise, containing
  \<open>Sign in to confirm\<close> gives 403; otherwise the answer is 500 and carries the message
  unchanged in its field \<open>technical\<close>. When the resolver returns no format list or an
  empty one, the answer is 500.
\<close>

theorem extract_status:
  "((url_param = None \<or> url_param = Some []) \<longrightarrow> status (extractHandler v g url_param) = 400)
   \<and> (u \<noteq> [] \<and> \<not> v u \<longrightarrow> status (extractHandler v g (Some u)) = 400)
   \<and> (u \<noteq> [] \<and> v u \<and> g u = Inl e \<longrightarrow>
        ((\<exists>pre post. message e = pre @ ''Video unavailable'' @ post)
           \<longrightarrow> status (extractHandler v g (Some u)) = 404)
      \<and> ((\<nexists>pre post. message e = pre @ ''Video unavailable'' @ post)
           \<and> (\<exists>pre post. message e = pre @ ''Sign in to confirm'' @ post)
           \<longrightarrow> status (extractHandler v g (Some u)) = 403)
      \<and> ((\<nexists>pre post. message e = pre @ ''Video unavailable'' @ post)
           \<and> (\<nexists>pre post. message e = pre @ ''Sign in to confirm'' @ post)
           \<longrightarrow> extractHandler v g (Some u)
                = \<lparr> status = 500,
                    body = ErrorBody [(''error'', JStr ''Failed to fetch video information from YouTube''),
                                      (''details'', JStr ''YouTube may have changed their API. Please try again later.''),
                                      (''technical'', JStr (message e))] \<rparr>))
   \<and> (u \<noteq> [] \<and> v u \<and> g u = Inr vi \<and> (formats vi = None \<or> formats vi = Some [])
        \<longrightarrow> status (extractHandler v g (Some u)) = 500)"
proof (intro conjI impI)
  assume "url_param = None \<or> url_param = Some []"
  then show "status (extractHandler v g url_param) = 400"
    by (auto simp: extractHandler_def)
next
  assume "u \<noteq> [] \<and> \<not> v u"
  then show "status (extractHandler v g (Some u)) = 400"
    by (simp add: extractHandler_def)
next
  assume a: "u \<noteq> [] \<and> v u \<and> g u = Inl e"
  assume "\<exists>pre post. message e = pre @ ''Video unavailable'' @ post"
  then have "str_includes (message e) ''Video unavailable''"
    unfolding str_includes_iff .
  with a show "status (extractHandler v g (Some u)) = 404"
    by (simp add: extractHandler_def)
next
  assume a: "u \<noteq> [] \<and> v u \<and> g u = Inl e"
  assume "(\<nexists>pre post. message e = pre @ ''Video unavailable'' @ post)
           \<and> (\<exists>pre post. message e = pre @ ''Sign in to confirm'' @ post)"
  then have "\<not> str_includes (message e) ''Video unavailable''"
    and "str_includes (message e) ''Sign in to confirm''"
    unfolding str_includes_iff by blast+
  with a show "status (extractHandler v g (Some u)) = 403"
    by (simp add: extractHandler_def)
next
  assume a: "u \<noteq> [] \<and> v u \<and> g u = Inl e"
  assume "(\<nexists>pre post. message e = pre @ ''Video unavailable'' @ post)
           \<and> (\<nexists>pre post. message e = pre @ ''Sign in to confirm'' @ post)"
  then have "\<not> str_includes (message e) ''Video unavailable''"
    and "\<not> str_includes (message e) ''Sign in to confirm''"
    unfolding str_includes_iff by blast+
  with a show "extractHandler v g (Some u)
                = \<lparr> status = 500,
                    body = ErrorBody [(''error'', JStr ''Failed to fetch video information from YouTube''),
                                      (''details'', JStr ''YouTube may have changed their API. Please try again later.''),
                                      (''technical'', JStr (message e))] \<rparr>"
    by (simp add: extractHandler_def)
next
  assume "u \<noteq> [] \<and> v u \<and> g u = Inr vi \<and> (formats vi = None \<or> formats vi = Some [])"
  then show "status (extractHandler v g (Some u)) = 500"
    by (auto simp: extractHandler_def)
qed

theorem extract_status_witness:
  "status (extractHandler (\<lambda>u. u \<noteq> ''not-a-url'') (\<lambda>u. if u = ''gone'' then Inl (Error ''Video unavailable'')
           else if u = ''adult'' then Inl (Error ''Sign in to confirm your age'')
           else if u = ''odd'' then Inl (Error ''Status code: 410'')
           else Inr \<lparr> videoDetails = \<lparr> title = ''T'', thumbnails = Some [], description = None,
                           lengthSeconds = ''1'', author = None, viewCount = ''0'' \<rparr>,
          formats = Some [] \<rparr>) None) = 400
   \<and> status (extractHandler (\<lambda>u. u \<noteq> ''not-a-url'') (\<lambda>u. if u = ''gone'' then Inl (Error ''Video unavailable'')
           else if u = ''adult'' then Inl (Error ''Sign in to confirm your age'')
           else if u = ''odd'' then Inl (Error ''Status code: 410'')
           else Inr \<lparr> videoDetails = \<lparr> title = ''T'', thumbnails = Some [], description = None,
                           lengthSeconds = ''1'', author = None, viewCount = ''0'' \<rparr>,
          formats = Some [] \<rparr>) (Some ''not-a-url'')) = 400
   \<and> status (extractHandler (\<lambda>u. u \<noteq> ''not-a-url'') (\<lambda>u. if u = ''gone'' then Inl (Error ''Video unavailable'')
           else if u = ''adult'' then Inl (Error ''Sign in to confirm your age'')
           else if u = ''odd'' then Inl (Error ''Status code: 410'')
           else Inr \<lparr> videoDetails = \<lparr> title = ''T'', thumbnails = Some [], description = None,
                           lengthSeconds = ''1'', author = None, viewCount = ''0'' \<rparr>,
          formats = Some [] \<rparr>) (Some ''gone'')) = 404
   \<and> status (extractHandler (\<lambda>u. u \<noteq> ''not-a-url'') (\<lambda>u. if u = ''gone'' then Inl (Error ''Video unavailable'')
           else if u = ''adult'' then Inl (Error ''Sign in to confirm your age'')
           else if u = ''odd'' then Inl (Error ''Status code: 410'')
           else Inr \<lparr> videoDetails = \<lparr> title = ''T'', thumbnails = Some [], description = None,
                           lengthSeconds = ''1'', author = None, viewCount = ''0'' \<rparr>,
          formats = Some [] \<rparr>) (Some ''adult'')) = 403
   \<and> extractHandler (\<lambda>u. u \<noteq> ''not-a-url'') (\<lambda>u. if u = ''gone'' then Inl (Error ''Video unavailable'')
           else if u = ''adult'' then Inl (Error ''Sign in to confirm your age'')
           else if u = ''odd'' then Inl (Error ''Status code: 410'')
           else Inr \<lparr> videoDetails = \<lparr> title = ''T'', thumbnails = Some [], description = None,
                           lengthSeconds = ''1'', author = None, viewCount = ''0'' \<rparr>,
          formats = Some [] \<rparr>) (Some ''odd'')
       = \<lparr> status = 500,
           body = ErrorBody [(''error'', JStr ''Failed to fetch video information from YouTube''),
                             (''details'', JStr ''YouTube may have changed their API. Please try again later.''),
                             (''technical'', JStr ''Status code: 410'')] \<rparr>
   \<and> status (extractHandler (\<lambda>u. u \<noteq> ''not-a-url'') (\<lambda>u. if u = ''gone'' then Inl (Error ''Video unavailable'')
           else if u = ''adult'' then Inl (Error ''Sign in to confirm your age'')
           else if u = ''odd'' then Inl (Error ''Status code: 410'')
           else Inr \<lparr> videoDetails = \<lparr> title = ''T'', thumbnails = Some [], description = None,
                           lengthSeconds = ''1'', author = None, viewCount = ''0'' \<rparr>,
          formats = Some [] \<rparr>) (Some ''live'')) = 500"
proof -
  let ?v = "\<lambda>u. u \<noteq> ''not-a-url''"
  let ?g = "(\<lambda>u. if u = ''gone'' then Inl (Error ''Video unavailable'')
           else if u = ''adult'' then Inl (Error ''Sign in to confirm your age'')
           else if u = ''odd'' then Inl (Error ''Status code: 410'')
           else Inr \<lparr> videoDetails = \<lparr> title = ''T'', thumbnails = Some [], description = None,
                           lengthSeconds = ''1'', author = None, viewCount = ''0'' \<rparr>,
          formats = Some [] \<rparr>)"
  note inc = includes_eval [unfolded str_includes_iff]
  have 1: "status (extractHandler ?v ?g None) = 400"
    using extract_status [of None ?v ?g "''x''" "Error []" "\<lparr> videoDetails = \<lparr> title = ''T'', thumbnails = Some [], description = None,
                           lengthSeconds = ''1'', author = None, viewCount = ''0'' \<rparr>,
          formats = Some [] \<rparr>"] by simp
  have 2: "status (extractHandler ?v ?g (Some ''not-a-url'')) = 400"
    using extract_status [of None ?v ?g "''not-a-url''" "Error []" "\<lparr> videoDetails = \<lparr> title = ''T'', thumbnails = Some [], description = None,
                           lengthSeconds = ''1'', author = None, viewCount = ''0'' \<rparr>,
          formats = Some [] \<rparr>"] by simp
  have 3: "status (extractHandler ?v ?g (Some ''gone'')) = 404"
    using extract_status [of None ?v ?g "''gone''" "Error ''Video unavailable''" "\<lparr> videoDetails = \<lparr> title = ''T'', thumbnails = Some [], description = None,
                           lengthSeconds = ''1'', author = None, viewCount = ''0'' \<rparr>,
          formats = Some [] \<rparr>"] inc by simp
  have 4: "status (extractHandler ?v ?g (Some ''adult'')) = 403"
    using extract_status [of None ?v ?g "''adult''" "Error ''Sign in to confirm your age''" "\<lparr> videoDetails = \<lparr> title = ''T'', thumbnails = Some [], description = None,
                           lengthSeconds = ''1'', author = None, viewCount = ''0'' \<rparr>,
          formats = Some [] \<rparr>"] inc
    by simp
  have 5: "extractHandler ?v ?g (Some ''odd'')
       = \<lparr> status = 500,
           body = ErrorBody [(''error'', JStr ''Failed to fetch video information from YouTube''),
                             (''details'', JStr ''YouTube may have changed their API. Please try again later.''),
                             (''technical'', JStr ''Status code: 410'')] \<rparr>"
    using extract_status [of None ?v ?g "''odd''" "Error ''Status code: 410''" "\<lparr> videoDetails = \<lparr> title = ''T'', thumbnails = Some [], description = None,
                           lengthSeconds = ''1'', author = None, viewCount = ''0'' \<rparr>,
          formats = Some [] \<rparr>"] inc by simp
  have 6: "status (extractHandler ?v ?g (Some ''live'')) = 500"
    using extract_status [of None ?v ?g "''live''" "Error []" "\<lparr> videoDetails = \<lparr> title = ''T'', thumbnails = Some [], description = None,
                           lengthSeconds = ''1'', author = None, viewCount = ''0'' \<rparr>,
          formats = Some [] \<rparr>"] by simp
  from 1 2 3 4 5 6 show ?thesis by blast
qed


section \<open>\<open>GET /search\<close>: the limit\<close>

lemma slice0_nat: "slice0 xs (Num (int n)) = take n xs"
proof -
  have "nat (min (int n) (int (length xs))) = min n (length xs)" by simp
  then have "slice0 xs (Num (int n)) = take (min n (length xs)) xs"
    by (simp add: slice0_def Let_def)
  then show ?thesis by (simp add: min_def)
qed

text \<open>
  The end of the slice is a double. Below \<open>2^53\<close> it is the number that was written;
  from \<open>2^53\<close> on it is at least \<open>2^53\<close>, more than an array can hold, and the slice is
  the whole array.
\<close>

lemma slice0_rounded:
  assumes "length xs < 2 ^ 32"
  shows "slice0 xs (toDouble (int n)) = take n xs"
proof (cases "n < 2 ^ 53")
  case True
  then have "\<bar>int n\<bar> < 2 ^ 53"
    by (metis abs_of_nat of_nat_less_iff of_nat_numeral of_nat_power)
  then have "toDouble (int n) = Num (int n)" by (rule toDouble_small)
  then show ?thesis by (simp add: slice0_nat)
next
  case False
  then have n: "2 ^ 53 \<le> n" by simp
  have "(2::nat) ^ 32 \<le> 2 ^ 53" by (rule power_increasing) simp_all
  with assms have len: "length xs < 2 ^ 53" by (rule less_le_trans)
  with n have whole: "take n xs = xs" by simp
  from n have "(2::int) ^ 53 \<le> int n"
    by (metis of_nat_le_iff of_nat_numeral of_nat_power)
  from toDouble_large [OF this] show ?thesis
  proof
    assume "toDouble (int n) = PosInfinity"
    then show ?thesis using whole by (simp add: slice0_def)
  next
    assume "\<exists>m. toDouble (int n) = Num m \<and> 2 ^ 53 \<le> m"
    then obtain m where m: "toDouble (int n) = Num m" "2 ^ 53 \<le> m" by blast
    from len have "int (length xs) < 2 ^ 53"
      by (metis of_nat_less_iff of_nat_numeral of_nat_power)
    with m(2) have "int (length xs) \<le> m" "\<not> m < 0" by simp_all
    then show ?thesis using m(1) whole by (simp add: slice0_def Let_def min_def)
  qed
qed

lemma length_elements: "length (elements a) < 2 ^ 32"
  using elements [of a] by simp

text \<open>
  Claim C8. For a query \<open>q\<close> on which the search client returns the array \<open>videos\<close>,
  and a limit written as a decimal number \<open>n\<close>, the results are the entries of the
  first \<open>n\<close> videos, \<open>min n k\<close> of them for \<open>k\<close> videos, and \<open>total\<close> is the length of
  the results. Without a limit, \<open>n\<close> is 10.
\<close>

theorem search_limit:
  "q \<noteq> [] \<and> ytSearch q = Inr sr \<longrightarrow>
     (lim \<noteq> [] \<and> (\<forall>c\<in>set lim. isDigit c) \<longrightarrow>
        (\<exists>results. searchHandler ytSearch (Some q) (Some lim)
                     = \<lparr> status = 200, body = SearchBody q results (length results) \<rparr>
            \<and> results = map searchEntryOf (take (digitsValue 10 lim) (elements (videos sr)))
            \<and> length results = min (digitsValue 10 lim) (length (elements (videos sr)))))
   \<and> (\<exists>results. searchHandler ytSearch (Some q) None
                     = \<lparr> status = 200, body = SearchBody q results (length results) \<rparr>
            \<and> results = map searchEntryOf (take 10 (elements (videos sr)))
            \<and> length results = min 10 (length (elements (videos sr))))"
proof (intro impI conjI)
  assume a: "q \<noteq> [] \<and> ytSearch q = Inr sr"
  have ten: "slice0 (elements (videos sr)) (Num 10) = take 10 (elements (videos sr))"
    using slice0_nat [of "elements (videos sr)" 10] by simp
  show "\<exists>results. searchHandler ytSearch (Some q) None
                     = \<lparr> status = 200, body = SearchBody q results (length results) \<rparr>
            \<and> results = map searchEntryOf (take 10 (elements (videos sr)))
            \<and> length results = min 10 (length (elements (videos sr)))"
    using a by (simp add: searchHandler_def Let_def ten min.commute)
  assume l: "lim \<noteq> [] \<and> (\<forall>c\<in>set lim. isDigit c)"
  then have "parseInt lim = toDouble (int (digitsValue 10 lim))" by (simp add: parseInt_digits)
  then have "slice0 (elements (videos sr)) (parseInt lim)
      = take (digitsValue 10 lim) (elements (videos sr))"
    using slice0_rounded [OF length_elements, of "videos sr" "digitsValue 10 lim"] by simp
  then show "\<exists>results. searchHandler ytSearch (Some q) (Some lim)
                     = \<lparr> status = 200, body = SearchBody q results (length results) \<rparr>
            \<and> results = map searchEntryOf (take (digitsValue 10 lim) (elements (videos sr)))
            \<and> length results = min (digitsValue 10 lim) (length (elements (videos sr)))"
    using a by (simp add: searchHandler_def Let_def min.commute)
qed

theorem search_limit_witness:
  "\<exists>results. searchHandler (\<lambda>q. Inr \<lparr> videos = Array_of [\<lparr> videoId = ''id'', video_title = ''t'', video_description = ''d'', duration_timestamp = ''1:00'',
          views = ''7'', uploaded = ''1 day ago'', video_thumbnail = ''th'', author_name = ''an'',
          video_url = ''https://youtube.com/watch?v=id'' \<rparr>, \<lparr> videoId = ''id'', video_title = ''t'', video_description = ''d'', duration_timestamp = ''1:00'',
          views = ''7'', uploaded = ''1 day ago'', video_thumbnail = ''th'', author_name = ''an'',
          video_url = ''https://youtube.com/watch?v=id'' \<rparr>, \<lparr> videoId = ''id'', video_title = ''t'', video_description = ''d'', duration_timestamp = ''1:00'',
          views = ''7'', uploaded = ''1 day ago'', video_thumbnail = ''th'', author_name = ''an'',
          video_url = ''https://youtube.com/watch?v=id'' \<rparr>, \<lparr> videoId = ''id'', video_title = ''t'', video_description = ''d'', duration_timestamp = ''1:00'',
          views = ''7'', uploaded = ''1 day ago'', video_thumbnail = ''th'', author_name = ''an'',
          video_url = ''https://youtube.com/watch?v=id'' \<rparr>, \<lparr> videoId = ''id'', video_title = ''t'', video_description = ''d'', duration_timestamp = ''1:00'',
          views = ''7'', uploaded = ''1 day ago'', video_thumbnail = ''th'', author_name = ''an'',
          video_url = ''https://youtube.com/watch?v=id'' \<rparr>] \<rparr>) (Some ''test'') (Some ''2'')
       = \<lparr> status = 200, body = SearchBody ''test'' results 2 \<rparr>
     \<and> results = [\<lparr> s_videoId = ''id'', s_title = ''t'', s_description = ''d'', s_duration = ''1:00'',
          s_views = ''7'', s_uploaded = ''1 day ago'', s_thumbnail = ''th'', s_author = ''an'',
          s_url = ''https://youtube.com/watch?v=id'' \<rparr>, \<lparr> s_videoId = ''id'', s_title = ''t'', s_description = ''d'', s_duration = ''1:00'',
          s_views = ''7'', s_uploaded = ''1 day ago'', s_thumbnail = ''th'', s_author = ''an'',
          s_url = ''https://youtube.com/watch?v=id'' \<rparr>]"
proof -
  have n: "digitsValue 10 ''2'' = 2" by (simp add: digitsValue_def digitVal_def)
  have e: "elements (Array_of [\<lparr> videoId = ''id'', video_title = ''t'', video_description = ''d'', duration_timestamp = ''1:00'',
          views = ''7'', uploaded = ''1 day ago'', video_thumbnail = ''th'', author_name = ''an'',
          video_url = ''https://youtube.com/watch?v=id'' \<rparr>, \<lparr> videoId = ''id'', video_title = ''t'', video_description = ''d'', duration_timestamp = ''1:00'',
          views = ''7'', uploaded = ''1 day ago'', video_thumbnail = ''th'', author_name = ''an'',
          video_url = ''https://youtube.com/watch?v=id'' \<rparr>, \<lparr> videoId = ''id'', video_title = ''t'', video_description = ''d'', duration_timestamp = ''1:00'',
          views = ''7'', uploaded = ''1 day ago'', video_thumbnail = ''th'', author_name = ''an'',
          video_url = ''https://youtube.com/watch?v=id'' \<rparr>, \<lparr> videoId = ''id'', video_title = ''t'', video_description = ''d'', duration_timestamp = ''1:00'',
          views = ''7'', uploaded = ''1 day ago'', video_thumbnail = ''th'', author_name = ''an'',
          video_url = ''https://youtube.com/watch?v=id'' \<rparr>, \<lparr> videoId = ''id'', video_title = ''t'', video_description = ''d'', duration_timestamp = ''1:00'',
          views = ''7'', uploaded = ''1 day ago'', video_thumbnail = ''th'', author_name = ''an'',
          video_url = ''https://youtube.com/watch?v=id'' \<rparr>]) = [\<lparr> videoId = ''id'', video_title = ''t'', video_description = ''d'', duration_timestamp = ''1:00'',
          views = ''7'', uploaded = ''1 day ago'', video_thumbnail = ''th'', author_name = ''an'',
          video_url = ''https://youtube.com/watch?v=id'' \<rparr>, \<lparr> videoId = ''id'', video_title = ''t'', video_description = ''d'', duration_timestamp = ''1:00'',
          views = ''7'', uploaded = ''1 day ago'', video_thumbnail = ''th'', author_name = ''an'',
          video_url = ''https://youtube.com/watch?v=id'' \<rparr>, \<lparr> videoId = ''id'', video_title = ''t'', video_description = ''d'', duration_timestamp = ''1:00'',
          views = ''7'', uploaded = ''1 day ago'', video_thumbnail = ''th'', author_name = ''an'',
          video_url = ''https://youtube.com/watch?v=id'' \<rparr>, \<lparr> videoId = ''id'', video_title = ''t'', video_description = ''d'', duration_timestamp = ''1:00'',
          views = ''7'', uploaded = ''1 day ago'', video_thumbnail = ''th'', author_name = ''an'',
          video_url = ''https://youtube.com/watch?v=id'' \<rparr>, \<lparr> videoId = ''id'', video_title = ''t'', video_description = ''d'', duration_timestamp = ''1:00'',
          views = ''7'', uploaded = ''1 day ago'', video_thumbnail = ''th'', author_name = ''an'',
          video_url = ''https://youtube.com/watch?v=id'' \<rparr>]"
    by (rule Array_of_inverse) simp
  from search_limit [of "''test''" "\<lambda>q. Inr \<lparr> videos = Array_of [\<lparr> videoId = ''id'', video_title = ''t'', video_description = ''d'', duration_timestamp = ''1:00'',
          views = ''7'', uploaded = ''1 day ago'', video_thumbnail = ''th'', author_name = ''an'',
          video_url = ''https://youtube.com/watch?v=id'' \<rparr>, \<lparr> videoId = ''id'', video_title = ''t'', video_description = ''d'', duration_timestamp = ''1:00'',
          views = ''7'', uploaded = ''1 day ago'', video_thumbnail = ''th'', author_name = ''an'',
          video_url = ''https://youtube.com/watch?v=id'' \<rparr>, \<lparr> videoId = ''id'', video_title = ''t'', video_description = ''d'', duration_timestamp = ''1:00'',
          views = ''7'', uploaded = ''1 day ago'', video_thumbnail = ''th'', author_name = ''an'',
          video_url = ''https://youtube.com/watch?v=id'' \<rparr>, \<lparr> videoId = ''id'', video_title = ''t'', video_description = ''d'', duration_timestamp = ''1:00'',
          views = ''7'', uploaded = ''1 day ago'', video_thumbnail = ''th'', author_name = ''an'',
          video_url = ''https://youtube.com/watch?v=id'' \<rparr>, \<lparr> videoId = ''id'', video_title = ''t'', video_description = ''d'', duration_timestamp = ''1:00'',
          views = ''7'', uploaded = ''1 day ago'', video_thumbnail = ''th'', author_name = ''an'',
          video_url = ''https://youtube.com/watch?v=id'' \<rparr>] \<rparr>" "\<lparr> videos = Array_of [\<lparr> videoId = ''id'', video_title = ''t'', video_description = ''d'', duration_timestamp = ''1:00'',
          views = ''7'', uploaded = ''1 day ago'', video_thumbnail = ''th'', author_name = ''an'',
          video_url = ''https://youtube.com/watch?v=id'' \<rparr>, \<lparr> videoId = ''id'', video_title = ''t'', video_description = ''d'', duration_timestamp = ''1:00'',
          views = ''7'', uploaded = ''1 day ago'', video_thumbnail = ''th'', author_name = ''an'',
          video_url = ''https://youtube.com/watch?v=id'' \<rparr>, \<lparr> videoId = ''id'', video_title = ''t'', video_description = ''d'', duration_timestamp = ''1:00'',
          views = ''7'', uploaded = ''1 day ago'', video_thumbnail = ''th'', author_name = ''an'',
          video_url = ''https://youtube.com/watch?v=id'' \<rparr>, \<lparr> videoId = ''id'', video_title = ''t'', video_description = ''d'', duration_timestamp = ''1:00'',
          views = ''7'', uploaded = ''1 day ago'', video_thumbnail = ''th'', author_name = ''an'',
          video_url = ''https://youtube.com/watch?v=id'' \<rparr>, \<lparr> videoId = ''id'', video_title = ''t'', video_description = ''d'', duration_timestamp = ''1:00'',
          views = ''7'', uploaded = ''1 day ago'', video_thumbnail = ''th'', author_name = ''an'',
          video_url = ''https://youtube.com/watch?v=id'' \<rparr>] \<rparr>" "''2''"]
  show ?thesis
    unfolding n by (simp add: isDigit_def searchEntryOf_def e)
qed


section \<open>\<open>GET /bulk-extract\<close>\<close>

lemma length_splitAcc: "length (splitAcc cur s) = Suc (length (filter (\<lambda>c. c = CHR '','') s))"
  by (induction s arbitrary: cur) auto

lemma join_splitAcc: "concat (map (\<lambda>p. CHR '','' # p) (splitAcc cur s)) = CHR '','' # cur @ s"
  by (induction s arbitrary: cur) auto

lemma pieces_splitAcc:
  "CHR '','' \<notin> set cur \<Longrightarrow> \<forall>p\<in>set (splitAcc cur s). CHR '','' \<notin> set p"
proof (induction s arbitrary: cur)
  case Nil
  then show ?case by simp
next
  case (Cons c cs)
  show ?case
  proof (cases "c = CHR '',''")
    case True
    with Cons.prems Cons.IH [of "[]"] show ?thesis by simp
  next
    case False
    with Cons.prems Cons.IH [of "cur @ [c]"] show ?thesis by simp
  qed
qed

lemma bulkLoop_map: "bulkLoop v g us acc = acc @ map (bulkStep v g) us"
  by (induction us arbitrary: acc) auto

lemma bulkStep_url: "b_url (bulkStep v g u) = u"
  by (simp add: bulkStep_def split: sum.splits)

lemma bulkStep_status:
  "b_status (bulkStep v g u) = ''success'' \<or> b_status (bulkStep v g u) = ''error''"
  by (simp add: bulkStep_def split: sum.splits)

lemma bulkStep_success_iff:
  "b_status (bulkStep v g u) = ''success'' \<longleftrightarrow>
     v u \<and> (\<exists>vi d. g u = Inr vi \<and> formatVideoData vi (formats vi) = Inr d)"
  by (auto simp: bulkStep_def split: sum.splits)

lemma count_two_status:
  "\<forall>r\<in>set rs. b_status r = ''success'' \<or> b_status r = ''error'' \<Longrightarrow>
   length (filter (\<lambda>r. b_status r = ''success'') rs) + length (filter (\<lambda>r. b_status r = ''error'') rs) = length rs"
  by (induction rs) auto

text \<open>
  Claim C9. For a non-empty \<open>urls\<close> parameter the answer has status 200. Its results
  are the loop body applied to each trimmed piece of the parameter on its own, in the
  order of the pieces: one entry per piece (one more than the number of commas), each
  with the URL of its piece, whatever the outcome for the other pieces. \<open>total\<close> is the
  number of entries, \<open>successful\<close> and \<open>failed\<close> count the entries with status
  \<open>success\<close> and \<open>error\<close>, and they add up to \<open>total\<close>.
\<close>

theorem bulk_extract_results:
  "urls \<noteq> [] \<longrightarrow>
     (\<exists>results.
        bulkExtractHandler v g (Some urls)
          = \<lparr> status = 200,
              body = BulkBody (length results)
                       (length (filter (\<lambda>r. b_status r = ''success'') results))
                       (length (filter (\<lambda>r. b_status r = ''error'') results))
                       results \<rparr>
        \<and> results = map (bulkStep v g) (map trim (split_comma urls))
        \<and> map b_url results = map trim (split_comma urls)
        \<and> length results = Suc (length (filter (\<lambda>c. c = CHR '','') urls))
        \<and> length (filter (\<lambda>r. b_status r = ''success'') results)
            + length (filter (\<lambda>r. b_status r = ''error'') results) = length results)"
proof
  assume ne: "urls \<noteq> []"
  let ?us = "map trim (split_comma urls)"
  let ?rs = "map (bulkStep v g) ?us"
  have loop: "bulkLoop v g ?us [] = ?rs" by (simp add: bulkLoop_map)
  have h: "bulkExtractHandler v g (Some urls)
          = \<lparr> status = 200,
              body = BulkBody (length ?rs)
                       (length (filter (\<lambda>r. b_status r = ''success'') ?rs))
                       (length (filter (\<lambda>r. b_status r = ''error'') ?rs))
                       ?rs \<rparr>"
    using ne by (simp add: bulkExtractHandler_def Let_def loop del: map_map)
  have u: "map b_url ?rs = ?us" by (simp add: bulkStep_url comp_def)
  have n: "length ?rs = Suc (length (filter (\<lambda>c. c = CHR '','') urls))"
    by (simp add: split_comma_def length_splitAcc)
  have "\<forall>r\<in>set ?rs. b_status r = ''success'' \<or> b_status r = ''error''"
    using bulkStep_status by auto
  from count_two_status [OF this]
  have c: "length (filter (\<lambda>r. b_status r = ''success'') ?rs)
            + length (filter (\<lambda>r. b_status r = ''error'') ?rs) = length ?rs" .
  from h u n c show "\<exists>results.
        bulkExtractHandler v g (Some urls)
          = \<lparr> status = 200,
              body = BulkBody (length results)
                       (length (filter (\<lambda>r. b_status r = ''success'') results))
                       (length (filter (\<lambda>r. b_status r = ''error'') results))
                       results \<rparr>
        \<and> results = map (bulkStep v g) (map trim (split_comma urls))
        \<and> map b_url results = map trim (split_comma urls)
        \<and> length results = Suc (length (filter (\<lambda>c. c = CHR '','') urls))
        \<and> length (filter (\<lambda>r. b_status r = ''success'') results)
            + length (filter (\<lambda>r. b_status r = ''error'') results) = length results"
    by blast
qed

theorem bulk_extract_results_witness:
  "\<exists>results. bulkExtractHandler (\<lambda>u. u = ''valid1'') (\<lambda>u. Inr \<lparr> videoDetails = \<lparr> title = ''T'', thumbnails = Some [], description = None,
                           lengthSeconds = ''1'', author = None, viewCount = ''0'' \<rparr>,
          formats = Some [\<lparr> qualityLabel = Some ''720p'', quality = Some ''hd720'', audioQuality = None, url = ''a'',
          mimeType = Some ''video/mp4'', hasVideo = True, hasAudio = True,
          contentLength = None, container = ''mp4'', codecs = None \<rparr>] \<rparr>) (Some ''valid1,invalid2'')
       = \<lparr> status = 200, body = BulkBody 2 1 1 results \<rparr>
     \<and> map b_url results = [''valid1'', ''invalid2'']
     \<and> map b_status results = [''success'', ''error'']"
proof -
  have us: "map trim (split_comma ''valid1,invalid2'') = [''valid1'', ''invalid2'']"
    by (simp add: split_comma_def trim_def isSpace_def)
  from bulk_extract_results [of "''valid1,invalid2''" "\<lambda>u. u = ''valid1''" "\<lambda>u. Inr \<lparr> videoDetails = \<lparr> title = ''T'', thumbnails = Some [], description = None,
                           lengthSeconds = ''1'', author = None, viewCount = ''0'' \<rparr>,
          formats = Some [\<lparr> qualityLabel = Some ''720p'', quality = Some ''hd720'', audioQuality = None, url = ''a'',
          mimeType = Some ''video/mp4'', hasVideo = True, hasAudio = True,
          contentLength = None, container = ''mp4'', codecs = None \<rparr>] \<rparr>"]
  show ?thesis
    unfolding us by (simp add: bulkStep_def formatVideoData_def)
qed

section \<open>The earlier snapshot compared\<close>

text \<open>
  \<open>index.js\<close> selects the same formats for its video lists (video-only followed by
  combined) and for its audio list, but it does not sort, groups by container alone,
  has no defaults for missing metadata, and its \<open>/extract\<close> knows neither the status
  403 nor the check for an empty format list.
\<close>

lemma video_selection_index:
  "mset (videoFormats_index fs @ combinedFormats_index fs)
     = image_mset videoEntryOf_index (filter_mset hasVideo (mset fs))"
proof -
  have "filter_mset (\<lambda>f. hasVideo f \<and> \<not> hasAudio f) (mset fs) + filter_mset (\<lambda>f. hasVideo f \<and> hasAudio f) (mset fs)
      = filter_mset hasVideo (mset fs)"
    by (induction fs) auto
  then show ?thesis
    by (simp add: videoFormats_index_def combinedFormats_index_def flip: image_mset_union)
qed

lemma audio_selection_index:
  "audioFormats_index fs = map audioEntryOf_index (filter (\<lambda>f. hasAudio f \<and> \<not> hasVideo f) fs)"
  by (simp add: audioFormats_index_def conj_commute)

lemma index_keeps_input_order:
  "videoFormats_index [\<lparr> qualityLabel = Some ''360p'', quality = Some ''medium'', audioQuality = None, url = ''a'',
          mimeType = Some ''video/mp4'', hasVideo = True, hasAudio = False,
          contentLength = None, container = ''mp4'', codecs = None \<rparr>, \<lparr> qualityLabel = Some ''1080p'', quality = Some ''hd1080'', audioQuality = None, url = ''b'',
          mimeType = Some ''video/mp4'', hasVideo = True, hasAudio = False,
          contentLength = None, container = ''mp4'', codecs = None \<rparr>] = [videoEntryOf_index \<lparr> qualityLabel = Some ''360p'', quality = Some ''medium'', audioQuality = None, url = ''a'',
          mimeType = Some ''video/mp4'', hasVideo = True, hasAudio = False,
          contentLength = None, container = ''mp4'', codecs = None \<rparr>, videoEntryOf_index \<lparr> qualityLabel = Some ''1080p'', quality = Some ''hd1080'', audioQuality = None, url = ''b'',
          mimeType = Some ''video/mp4'', hasVideo = True, hasAudio = False,
          contentLength = None, container = ''mp4'', codecs = None \<rparr>]
   \<and> map v_quality (videoFormats [\<lparr> qualityLabel = Some ''360p'', quality = Some ''medium'', audioQuality = None, url = ''a'',
          mimeType = Some ''video/mp4'', hasVideo = True, hasAudio = False,
          contentLength = None, container = ''mp4'', codecs = None \<rparr>, \<lparr> qualityLabel = Some ''1080p'', quality = Some ''hd1080'', audioQuality = None, url = ''b'',
          mimeType = Some ''video/mp4'', hasVideo = True, hasAudio = False,
          contentLength = None, container = ''mp4'', codecs = None \<rparr>]) = [''1080p'', ''360p'']"
  by (simp add: videoFormats_index_def videoFormats_def js_sort_def videoEntryOf_def fileSizeOf_def
      compareFn_def getQualityNum_def matchAt_def isDigit_def parseInt_def isSpace_def
      digitsValue_def digitVal_def toDouble_small)

lemma index_groups_by_container_only:
  "(\<exists>d. formatVideoData_index \<lparr> videoDetails = \<lparr> title = ''T'', thumbnails = Some [\<lparr> t_url = Some ''th'' \<rparr>], description = None,
                           lengthSeconds = ''1'', author = Some \<lparr> name = Some ''A'' \<rparr>, viewCount = ''0'' \<rparr>, formats = None \<rparr> (Some [\<lparr> qualityLabel = Some ''720p'', quality = Some ''hd720'', audioQuality = None, url = ''c'',
          mimeType = Some ''video/mp4'', hasVideo = True, hasAudio = False,
          contentLength = None, container = ''m4v'', codecs = None \<rparr>]) = Inr d
        \<and> i_video_mp4 (i_format_options d) = [])
   \<and> (\<exists>d. formatVideoData \<lparr> videoDetails = \<lparr> title = ''T'', thumbnails = Some [\<lparr> t_url = Some ''th'' \<rparr>], description = None,
                           lengthSeconds = ''1'', author = Some \<lparr> name = Some ''A'' \<rparr>, viewCount = ''0'' \<rparr>, formats = None \<rparr> (Some [\<lparr> qualityLabel = Some ''720p'', quality = Some ''hd720'', audioQuality = None, url = ''c'',
          mimeType = Some ''video/mp4'', hasVideo = True, hasAudio = False,
          contentLength = None, container = ''m4v'', codecs = None \<rparr>]) = Inr d
        \<and> map v_url (video_mp4 (format_options d)) = [''c''])"
  by (simp add: formatVideoData_index_def formatVideoData_def videoFormats_index_def
      combinedFormats_index_def audioFormats_index_def videoFormats_def js_sort_def
      videoEntryOf_def videoEntryOf_index_def fileSizeOf_def)

lemma index_raises_without_defaults:
  "formatVideoData_index \<lparr> videoDetails = \<lparr> title = ''T'', thumbnails = Some [], description = None,
                           lengthSeconds = ''1'', author = None, viewCount = ''0'' \<rparr>, formats = None \<rparr> (Some [\<lparr> qualityLabel = Some ''360p'', quality = Some ''medium'', audioQuality = None, url = ''a'',
          mimeType = Some ''video/mp4'', hasVideo = True, hasAudio = False,
          contentLength = None, container = ''mp4'', codecs = None \<rparr>])
     = Inl (TypeError (cannotRead ''url''))
   \<and> formatVideoData_index \<lparr> videoDetails = \<lparr> title = ''T'', thumbnails = Some [], description = None,
                           lengthSeconds = ''1'', author = None, viewCount = ''0'' \<rparr> \<lparr> thumbnails := Some [\<lparr> t_url = None \<rparr>] \<rparr>, formats = None \<rparr> (Some [\<lparr> qualityLabel = Some ''360p'', quality = Some ''medium'', audioQuality = None, url = ''a'',
          mimeType = Some ''video/mp4'', hasVideo = True, hasAudio = False,
          contentLength = None, container = ''mp4'', codecs = None \<rparr>])
     = Inl (TypeError (cannotRead ''name''))"
  by (simp add: formatVideoData_index_def)

lemma index_extract_statuses:
  "i_status (extractHandler_index (\<lambda>u. True) (\<lambda>u. Inl (Error ''Sign in to confirm your age'')) (Some ''x'')) = 500
   \<and> i_status (extractHandler_index (\<lambda>u. True) (\<lambda>u. Inr \<lparr> videoDetails = \<lparr> title = ''T'', thumbnails = Some [\<lparr> t_url = Some ''th'' \<rparr>], description = None,
                           lengthSeconds = ''1'', author = Some \<lparr> name = Some ''A'' \<rparr>, viewCount = ''0'' \<rparr>, formats = Some [] \<rparr>) (Some ''x'')) = 200"
  by (simp add: extractHandler_index_def catch_index_def formatVideoData_index_def
      audioFormats_index_def)

end
